theory Spec2Isabelle
  imports Complex_Main
begin

section \<open>Numbers, coordinates and the distance estimator\<close>

text \<open>
  The program is a single React component (\<^verbatim>\<open>App\<close>).  Its numbers are JavaScript
  numbers; they are modelled as mathematical reals, so rounding, infinities and NaN are
  outside the model.  A coordinate is the pair \<^verbatim>\<open>[lon, lat]\<close> that the geocoding
  provider returns as \<^verbatim>\<open>center\<close>.
\<close>

type_synonym coord = "real \<times> real"

text \<open>
  \<^verbatim>\<open>Math.atan2(y, x)\<close> on finite arguments: the angle of the point \<open>(x, y)\<close> in
  \<open>(-\<pi>, \<pi>]\<close>, with \<^verbatim>\<open>Math.atan2(0, 0) = 0\<close>.
\<close>

definition atan2 :: "real \<Rightarrow> real \<Rightarrow> real" where
  "atan2 y x =
     (if 0 < x then arctan (y / x)
      else if x < 0 \<and> 0 \<le> y then arctan (y / x) + pi
      else if x < 0 then arctan (y / x) - pi
      else if 0 < y then pi / 2
      else if y < 0 then - (pi / 2)
      else 0)"

text \<open>
  \<^verbatim>\<open>calculateDistance(coord1, coord2)\<close>: index 0 is the longitude, index 1 the latitude.
  For latitudes between -90 and 90 degrees \<open>a\<close> lies in \<open>[0, 1]\<close>, so both square roots
  are taken of non-negative numbers.
\<close>

definition calculateDistance :: "coord \<Rightarrow> coord \<Rightarrow> real" where
  "calculateDistance coord1 coord2 =
     (let R = 6371;
          dLat = (snd coord2 - snd coord1) * pi / 180;
          dLon = (fst coord2 - fst coord1) * pi / 180;
          a = sin (dLat / 2) * sin (dLat / 2) +
              cos (snd coord1 * pi / 180) * cos (snd coord2 * pi / 180) *
              sin (dLon / 2) * sin (dLon / 2);
          c = 2 * atan2 (sqrt a) (sqrt (1 - a))
      in R * c)"

text \<open>
  The accumulation loop of \<^verbatim>\<open>fetchCoords\<close>:
  \<^verbatim>\<open>for (let i = 0; i < results.length - 1; i++) totalDist += calculateDistance(results[i], results[i + 1])\<close>.
  It is entered only when \<^verbatim>\<open>results.length > 1\<close>, so the subtraction never goes below zero.
\<close>

function totalDistLoop :: "coord list \<Rightarrow> nat \<Rightarrow> real \<Rightarrow> real" where
  "totalDistLoop results i totalDist =
     (if i < length results - 1
      then totalDistLoop results (i + 1)
             (totalDist + calculateDistance (results ! i) (results ! (i + 1)))
      else totalDist)"
  by pat_completeness auto
termination
  by (relation "measure (\<lambda>(results, i, totalDist). length results - 1 - i)") auto

declare totalDistLoop.simps [simp del]

text \<open>
  The tail of \<^verbatim>\<open>fetchCoords\<close> after \<^verbatim>\<open>setCoords(results)\<close>: the pair
  (\<^verbatim>\<open>totalDistance\<close>, \<^verbatim>\<open>estimatedTime\<close>) that the two setters receive.
\<close>

definition distanceAndEta :: "coord list \<Rightarrow> real \<times> real" where
  "distanceAndEta results =
     (if length results > 1
      then (let totalDist = totalDistLoop results 0 0 in (totalDist, totalDist / 60))
      else (0, 0))"

section \<open>Geocoding: resolving the place list\<close>

text \<open>
  A feature of the provider's answer: \<^verbatim>\<open>{place_name, center: [lon, lat], id}\<close>.
\<close>

record feature =
  place_name :: string
  center :: coord
  feature_id :: string

text \<open>
  What one \<^verbatim>\<open>await fetch(url)\<close> followed by \<^verbatim>\<open>await res.json()\<close> can yield: the request
  rejects (no network), or it answers with a status (\<^verbatim>\<open>res.ok\<close>) and a body that either
  fails to parse or is an object whose \<^verbatim>\<open>features\<close> property is absent or an array.
\<close>

datatype body = NotJson | Data "feature list option"

datatype response = NetworkError | Http bool body

datatype error = FetchRejected | JsonRejected

type_synonym geocoder = "string \<Rightarrow> response"

text \<open>
  The loop of \<^verbatim>\<open>fetchCoords\<close>, one request per place, awaited in list order.  Neither
  \<^verbatim>\<open>await\<close> is inside a \<^verbatim>\<open>try\<close>, so a rejection ends the whole async function;
  \<^verbatim>\<open>res.ok\<close> is not looked at.
\<close>

fun fetchCoordsLoop :: "geocoder \<Rightarrow> string list \<Rightarrow> coord list \<Rightarrow> error + coord list" where
  "fetchCoordsLoop geocode [] results = Inr results"
| "fetchCoordsLoop geocode (place # rest) results =
     (case geocode place of
        NetworkError \<Rightarrow> Inl FetchRejected
      | Http ok NotJson \<Rightarrow> Inl JsonRejected
      | Http ok (Data None) \<Rightarrow> fetchCoordsLoop geocode rest results
      | Http ok (Data (Some [])) \<Rightarrow> fetchCoordsLoop geocode rest results
      | Http ok (Data (Some (f # fs))) \<Rightarrow> fetchCoordsLoop geocode rest (results @ [center f]))"

text \<open>The three state variables that \<^verbatim>\<open>fetchCoords\<close> writes.\<close>

record trip =
  coords :: "coord list"
  totalDistance :: real
  estimatedTime :: real

text \<open>
  \<^verbatim>\<open>fetchCoords\<close> for the place list of the render that started it.  A rejected pass
  reaches none of the setters: the state keeps its previous value and the caller sees
  the error only as an unhandled rejection.
\<close>

definition storeResults :: "coord list \<Rightarrow> 'a trip_scheme \<Rightarrow> 'a trip_scheme" where
  "storeResults results s =
     s\<lparr>coords := results,
       totalDistance := fst (distanceAndEta results),
       estimatedTime := snd (distanceAndEta results)\<rparr>"

definition fetchCoords :: "geocoder \<Rightarrow> string list \<Rightarrow> 'a trip_scheme \<Rightarrow> error + 'a trip_scheme" where
  "fetchCoords geocode places s =
     (case fetchCoordsLoop geocode places [] of
        Inl e \<Rightarrow> Inl e
      | Inr results \<Rightarrow> Inr (storeResults results s))"

text \<open>The single-best-match resolution of one place, as the loop body decides it.\<close>

definition resolveOne :: "geocoder \<Rightarrow> string \<Rightarrow> coord option" where
  "resolveOne geocode place =
     (case geocode place of
        Http ok (Data (Some (f # fs))) \<Rightarrow> Some (center f)
      | _ \<Rightarrow> None)"

definition rejects :: "geocoder \<Rightarrow> string \<Rightarrow> bool" where
  "rejects geocode place =
     (case geocode place of NetworkError \<Rightarrow> True | Http ok NotJson \<Rightarrow> True | _ \<Rightarrow> False)"

text \<open>
  A provider for the examples below: two matches for Paris, one for Tokyo, an empty
  feature list for Atlantis, an error body without \<^verbatim>\<open>features\<close> (status not ok) for
  Nowhere, and no answer at all for any other name.
\<close>

definition exampleGeocoder :: geocoder where
  "exampleGeocoder p =
     (if p = ''Paris''
      then Http True (Data (Some
             [\<lparr>place_name = ''Paris, France'', center = (2.35, 48.85), feature_id = ''place.1''\<rparr>,
              \<lparr>place_name = ''Paris, Texas'', center = (- 95.56, 33.66), feature_id = ''place.2''\<rparr>]))
      else if p = ''Tokyo''
      then Http True (Data (Some
             [\<lparr>place_name = ''Tokyo, Japan'', center = (139.69, 35.68), feature_id = ''place.3''\<rparr>]))
      else if p = ''Atlantis'' then Http True (Data (Some []))
      else if p = ''Nowhere'' then Http False (Data None)
      else NetworkError)"

section \<open>Place entry and autocomplete\<close>

text \<open>
  \<^verbatim>\<open>String.prototype.trim\<close> on strings of 8-bit characters: it strips tab, line feed,
  vertical tab, form feed, carriage return, space and no-break space from both ends.
\<close>

definition isWhiteSpace :: "char \<Rightarrow> bool" where
  "isWhiteSpace c = (of_char c \<in> {9, 10, 11, 12, 13, 32, 160 :: nat})"

definition trim :: "string \<Rightarrow> string" where
  "trim s = rev (dropWhile isWhiteSpace (rev (dropWhile isWhiteSpace s)))"

text \<open>
  One run of the suggestion effect that got past its two early returns: the \<^verbatim>\<open>input\<close> it
  closed over and its local \<^verbatim>\<open>ignore\<close> flag.
\<close>

record query =
  q_input :: string
  q_ignore :: bool

text \<open>
  The part of the component's state that place entry touches.  \<^verbatim>\<open>places\<close>, \<^verbatim>\<open>input\<close>,
  \<^verbatim>\<open>suggestions\<close> and \<^verbatim>\<open>highlightedIdx\<close> are the \<^verbatim>\<open>useState\<close> variables.  The rest is
  what the runtime holds for the suggestion effect: the closures of its runs (by run
  number), the runs whose 300 ms \<^verbatim>\<open>setTimeout\<close> is pending, the runs whose \<^verbatim>\<open>fetch\<close> is in
  flight, and the run whose cleanup function React will call before the next run.

  The controls are disabled while \<^verbatim>\<open>animating\<close> is set.  That flag belongs to the animation
  effect; the machine below does not carry it and accepts every event at any time, which
  only adds behaviours.
\<close>

record ui =
  places :: "string list"
  input :: string
  suggestions :: "feature list"
  highlightedIdx :: int
  queries :: "query list"
  timeouts :: "nat list"
  requests :: "nat list"
  cleanupFn :: "nat option"

definition ui_init :: ui where
  "ui_init = \<lparr>places = [], input = [], suggestions = [], highlightedIdx = - 1,
              queries = [], timeouts = [], requests = [], cleanupFn = None\<rparr>"

text \<open>The cleanup closure \<^verbatim>\<open>() => { ignore = true; clearTimeout(timeoutId); }\<close> of run \<open>q\<close>.\<close>

definition suggestionsCleanup :: "ui \<Rightarrow> ui" where
  "suggestionsCleanup s =
     (case cleanupFn s of
        None \<Rightarrow> s
      | Some q \<Rightarrow>
          s\<lparr>queries := (queries s)[q := (queries s ! q)\<lparr>q_ignore := True\<rparr>],
            timeouts := removeAll q (timeouts s),
            cleanupFn := None\<rparr>)"

text \<open>
  The body of the suggestion effect; \<open>accessToken\<close> is \<^verbatim>\<open>mapboxgl.accessToken\<close>, set once
  when the module loads.  The two early returns hand React no cleanup function.
\<close>

definition suggestionsEffect :: "string \<Rightarrow> ui \<Rightarrow> ui" where
  "suggestionsEffect accessToken s =
     (if trim (input s) = [] then s\<lparr>suggestions := []\<rparr>
      else if accessToken = [] then s\<lparr>suggestions := []\<rparr>
      else
        (let q = length (queries s)
         in s\<lparr>queries := queries s @ [\<lparr>q_input = input s, q_ignore = False\<rparr>],
              timeouts := timeouts s @ [q],
              cleanupFn := Some q\<rparr>))"

text \<open>
  A commit after a handler: the effect has the dependency list \<^verbatim>\<open>[input]\<close>, so when the
  handler changed \<^verbatim>\<open>input\<close> React calls the previous cleanup and then the body.
\<close>

definition commitInput :: "string \<Rightarrow> ui \<Rightarrow> ui \<Rightarrow> ui" where
  "commitInput accessToken before s =
     (if input s \<noteq> input before then suggestionsEffect accessToken (suggestionsCleanup s)
      else s)"

text \<open>The \<^verbatim>\<open>onChange\<close> handler of the text field.\<close>

definition onChange :: "string \<Rightarrow> ui \<Rightarrow> ui" where
  "onChange v s = s\<lparr>input := v, highlightedIdx := - 1\<rparr>"

text \<open>The timer of run \<open>q\<close> fires: \<^verbatim>\<open>fetchSuggestions\<close> starts and issues its request.\<close>

definition timeoutFired :: "nat \<Rightarrow> ui \<Rightarrow> ui" where
  "timeoutFired q s =
     (if q \<in> set (timeouts s)
      then s\<lparr>timeouts := removeAll q (timeouts s), requests := requests s @ [q]\<rparr>
      else s)"

text \<open>
  The rest of \<^verbatim>\<open>fetchSuggestions\<close> of run \<open>q\<close>, once its request has settled with \<open>r\<close>.  A
  rejection, a status that is not ok and an unparsable body all land in the \<^verbatim>\<open>catch\<close>.
\<close>

definition fetchSuggestions :: "nat \<Rightarrow> response \<Rightarrow> ui \<Rightarrow> ui" where
  "fetchSuggestions q r s =
     (let ignore = q_ignore (queries s ! q);
          caught = (if \<not> ignore then s\<lparr>suggestions := []\<rparr> else s)
      in case r of
           NetworkError \<Rightarrow> caught
         | Http ok b \<Rightarrow>
             if \<not> ok then caught
             else (case b of
                     NotJson \<Rightarrow> caught
                   | Data features \<Rightarrow>
                       if \<not> ignore
                       then s\<lparr>suggestions := (case features of None \<Rightarrow> [] | Some fs \<Rightarrow> fs)\<rparr>
                       else s))"

definition responded :: "nat \<Rightarrow> response \<Rightarrow> ui \<Rightarrow> ui" where
  "responded q r s =
     (if q \<in> set (requests s)
      then fetchSuggestions q r (s\<lparr>requests := removeAll q (requests s)\<rparr>)
      else s)"

text \<open>\<^verbatim>\<open>handleAddPlace\<close>; the refocusing of the text field is not modelled.\<close>

definition handleAddPlace :: "string \<Rightarrow> ui \<Rightarrow> ui" where
  "handleAddPlace accessToken s =
     (let trimmedInput = trim (input s)
      in if trimmedInput = [] then s
         else
           (case find (\<lambda>f. place_name f = trimmedInput) (suggestions s) of
              Some match \<Rightarrow>
                s\<lparr>places := places s @ [place_name match], input := [], suggestions := []\<rparr>
            | None \<Rightarrow>
                if accessToken = [] \<or> length (suggestions s) = 0
                then s\<lparr>places := places s @ [trimmedInput], input := [], suggestions := []\<rparr>
                else s))"

text \<open>\<^verbatim>\<open>handleSuggestionClick\<close>.\<close>

definition handleSuggestionClick :: "string \<Rightarrow> ui \<Rightarrow> ui" where
  "handleSuggestionClick place s = s\<lparr>places := places s @ [place], input := [], suggestions := []\<rparr>"

datatype key = ArrowDown | ArrowUp | Enter | OtherKey

text \<open>The \<^verbatim>\<open>onKeyDown\<close> handler of the text field.\<close>

definition onKeyDown :: "key \<Rightarrow> ui \<Rightarrow> ui" where
  "onKeyDown k s =
     (if length (suggestions s) > 0
      then (case k of
              ArrowDown \<Rightarrow>
                s\<lparr>highlightedIdx := min (highlightedIdx s + 1) (int (length (suggestions s)) - 1)\<rparr>
            | ArrowUp \<Rightarrow> s\<lparr>highlightedIdx := max (highlightedIdx s - 1) 0\<rparr>
            | Enter \<Rightarrow>
                (let idxToUse = (if highlightedIdx s = - 1 then 0 else highlightedIdx s)
                 in if idxToUse \<ge> 0 \<and> idxToUse < int (length (suggestions s))
                    then handleSuggestionClick (place_name (suggestions s ! nat idxToUse)) s
                    else s)
            | OtherKey \<Rightarrow> s)
      else s)"

text \<open>The remove button of the place at \<open>idx\<close>: \<^verbatim>\<open>places.filter((_, i) => i !== idx)\<close>.\<close>

definition removePlace :: "nat \<Rightarrow> ui \<Rightarrow> ui" where
  "removePlace idx s = s\<lparr>places := take idx (places s) @ drop (idx + 1) (places s)\<rparr>"

text \<open>
  What can happen to this part of the component: the user types, presses a key, clicks
  Add (the button is disabled on blank input), clicks the \<open>k\<close>-th rendered suggestion or
  the remove button of a rendered place; a pending timer fires; an issued request
  settles.  An event that the page cannot raise in the current state changes nothing.
\<close>

datatype ui_event =
    Change string
  | KeyDown key
  | AddClick
  | SuggestionClick nat
  | RemoveClick nat
  | TimeoutFired nat
  | Responded nat response

fun ui_step :: "string \<Rightarrow> ui_event \<Rightarrow> ui \<Rightarrow> ui" where
  "ui_step tok (Change v) s = commitInput tok s (onChange v s)"
| "ui_step tok (KeyDown k) s = commitInput tok s (onKeyDown k s)"
| "ui_step tok AddClick s =
     (if trim (input s) = [] then s else commitInput tok s (handleAddPlace tok s))"
| "ui_step tok (SuggestionClick k) s =
     (if k < length (suggestions s)
      then commitInput tok s (handleSuggestionClick (place_name (suggestions s ! k)) s)
      else s)"
| "ui_step tok (RemoveClick idx) s = (if idx < length (places s) then removePlace idx s else s)"
| "ui_step tok (TimeoutFired q) s = timeoutFired q s"
| "ui_step tok (Responded q r) s = responded q r s"

text \<open>
  The state after a sequence of events, from the state after mounting (the first run of
  the effect sees a blank input and returns early).
\<close>

definition ui_run :: "string \<Rightarrow> ui_event list \<Rightarrow> ui" where
  "ui_run tok evs = foldl (\<lambda>s e. ui_step tok e s) ui_init evs"

text \<open>
  What holds of the effect's bookkeeping after any sequence of events: only the run
  whose cleanup React still holds can have \<^verbatim>\<open>ignore\<close> unset, and that run is the latest
  one; timers and requests belong to existing runs; without an access token no run is
  ever created and the suggestion list stays empty.
\<close>

definition ui_inv :: "string \<Rightarrow> ui \<Rightarrow> bool" where
  "ui_inv tok s \<longleftrightarrow>
     (\<forall>q < length (queries s). \<not> q_ignore (queries s ! q) \<longrightarrow> cleanupFn s = Some q) \<and>
     (\<forall>q \<in> set (requests s). q < length (queries s)) \<and>
     (\<forall>q \<in> set (timeouts s). q < length (queries s)) \<and>
     (case cleanupFn s of None \<Rightarrow> True | Some q \<Rightarrow> Suc q = length (queries s)) \<and>
     (tok = [] \<longrightarrow> queries s = [] \<and> suggestions s = [])"

section \<open>Easing\<close>

text \<open>\<^verbatim>\<open>easeInOutCubic\<close>, local to \<^verbatim>\<open>animateSegment\<close>; \<^verbatim>\<open>Math.pow(y, 3)\<close> is the cube.\<close>

definition easeInOutCubic :: "real \<Rightarrow> real" where
  "easeInOutCubic x = (if x < 0.5 then 4 * x * x * x else 1 - (- 2 * x + 2) ^ 3 / 2)"

section \<open>The animation effect\<close>

text \<open>
  The map is an external object.  Of its state the model keeps what the component
  reads or writes: whether the layer \<^verbatim>\<open>'route'\<close> exists (with its \<^verbatim>\<open>line-dasharray\<close>), the
  data of the source \<^verbatim>\<open>'route'\<close> if it exists, every \<^verbatim>\<open>Marker\<close> object created so far
  (a marker is named by its position in that list), the last camera command, and the
  registered \<^verbatim>\<open>moveend\<close> listeners.
\<close>

datatype color = Yellow | Blue

record marker =
  mk_color :: color
  mk_lngLat :: coord
  mk_added :: bool

datatype camera = FlyTo coord real | EaseTo coord real | FitBounds coord coord

text \<open>The argument of \<^verbatim>\<open>playSound\<close>.\<close>

datatype cue = CueStart | CueSegment | CueComplete

text \<open>
  One run of the animation effect that got past its guard: the values of the render it
  closed over (\<^verbatim>\<open>coords\<close>, \<^verbatim>\<open>animationSpeed\<close>, and \<^verbatim>\<open>soundEnabled\<close> through \<^verbatim>\<open>playSound\<close>)
  and its local variables.  \<open>segIndex\<close> is the variable \<^verbatim>\<open>i\<close>.
\<close>

record session =
  s_coords :: "coord list"
  s_animationSpeed :: real
  s_soundEnabled :: bool
  animationFrame :: "nat option"
  s_marker :: nat
  routeLayerAdded :: bool
  routeSourceAdded :: bool
  cleanupDone :: bool
  progressCoords :: "coord list"
  segIndex :: nat

text \<open>
  The closure \<^verbatim>\<open>frame\<close> of one call of \<^verbatim>\<open>animateSegment\<close>, as the host holds it between
  \<^verbatim>\<open>requestAnimationFrame\<close> and the frame: the session it belongs to and the locals of
  \<^verbatim>\<open>animateSegment\<close>.
\<close>

record frameCb =
  f_session :: nat
  f_start :: coord
  f_end :: coord
  f_t :: real
  f_duration :: real
  f_startTime :: real

text \<open>
  The state of the component as far as the animation is concerned.  After the three
  fields of \<open>trip\<close> come the \<^verbatim>\<open>useState\<close> variables, the two fields of
  \<^verbatim>\<open>animationStateRef.current\<close>, \<^verbatim>\<open>mapRef.current\<close> (whether the map exists, and its state),
  and what the runtime holds: the closures of the effect runs (by run number), the run
  whose \<^verbatim>\<open>cleanup\<close> React will call, the dependencies of the last runs of the animation
  effect and of the pause effect (\<open>coordsId\<close> stands for the identity of the array in
  \<^verbatim>\<open>coords\<close>), the pending animation-frame callbacks with their ids, the value of
  \<^verbatim>\<open>performance.now()\<close>, and the tones played.
\<close>

record app = trip +
  animating :: bool
  markers :: "nat list"
  animationRequested :: bool
  animationSpeed :: real
  animationPaused :: bool
  soundEnabled :: bool
  currentSegment :: nat
  isPaused :: bool
  currentFrame :: "nat option"
  mapRef :: bool
  routeLayer :: "(nat \<times> nat) option"
  routeSource :: "coord list option"
  markerObjs :: "marker list"
  camera :: "camera option"
  moveend :: "nat list"
  sessions :: "session list"
  effectCleanup :: "nat option"
  coordsId :: nat
  effectDeps :: "nat \<times> bool \<times> real"
  pausedDep :: bool
  frames :: "(nat \<times> frameCb) list"
  nextFrame :: nat
  now :: real
  cues :: "cue list"

definition app_init :: app where
  "app_init =
     \<lparr>coords = [], totalDistance = 0, estimatedTime = 0,
      animating = False, markers = [], animationRequested = False, animationSpeed = 1,
      animationPaused = False, soundEnabled = False, currentSegment = 0,
      isPaused = False, currentFrame = None, mapRef = False,
      routeLayer = None, routeSource = None, markerObjs = [], camera = None, moveend = [],
      sessions = [], effectCleanup = None, coordsId = 0, effectDeps = (0, False, 1),
      pausedDep = False, frames = [], nextFrame = 1, now = 0, cues = []\<rparr>"

subsection \<open>Host and map primitives\<close>

text \<open>\<^verbatim>\<open>requestAnimationFrame(frame)\<close>: the ids are positive and never reused.\<close>

definition requestAnimationFrame :: "frameCb \<Rightarrow> app \<Rightarrow> nat \<times> app" where
  "requestAnimationFrame cb s =
     (nextFrame s, s\<lparr>frames := frames s @ [(nextFrame s, cb)], nextFrame := nextFrame s + 1\<rparr>)"

definition cancelAnimationFrame :: "nat \<Rightarrow> app \<Rightarrow> app" where
  "cancelAnimationFrame fid s = s\<lparr>frames := filter (\<lambda>e. fst e \<noteq> fid) (frames s)\<rparr>"

text \<open>\<^verbatim>\<open>playSound(type)\<close> of a render in which \<^verbatim>\<open>soundEnabled\<close> had the value \<open>enabled\<close>.\<close>

definition playSound :: "bool \<Rightarrow> cue \<Rightarrow> app \<Rightarrow> app" where
  "playSound enabled type s = (if \<not> enabled then s else s\<lparr>cues := cues s @ [type]\<rparr>)"

text \<open>\<^verbatim>\<open>new mapboxgl.Marker({color}).setLngLat(p).addTo(map)\<close>.\<close>

definition newMarker :: "color \<Rightarrow> coord \<Rightarrow> app \<Rightarrow> nat \<times> app" where
  "newMarker c p s =
     (length (markerObjs s),
      s\<lparr>markerObjs := markerObjs s @ [\<lparr>mk_color = c, mk_lngLat = p, mk_added = True\<rparr>]\<rparr>)"

definition markerRemove :: "nat \<Rightarrow> app \<Rightarrow> app" where
  "markerRemove m s =
     s\<lparr>markerObjs := (markerObjs s)[m := (markerObjs s ! m)\<lparr>mk_added := False\<rparr>]\<rparr>"

definition markerSetLngLat :: "nat \<Rightarrow> coord \<Rightarrow> app \<Rightarrow> app" where
  "markerSetLngLat m p s =
     s\<lparr>markerObjs := (markerObjs s)[m := (markerObjs s ! m)\<lparr>mk_lngLat := p\<rparr>]\<rparr>"

text \<open>\<^verbatim>\<open>ms.forEach(m => m.remove())\<close>.\<close>

definition removeMarkers :: "nat list \<Rightarrow> app \<Rightarrow> app" where
  "removeMarkers ms s = fold markerRemove ms s"

text \<open>\<^verbatim>\<open>coords.map(coord => new mapboxgl.Marker({color: '#3b82f6'}).setLngLat(coord).addTo(map))\<close>.\<close>

definition addBlueMarkers :: "coord list \<Rightarrow> app \<Rightarrow> nat list \<times> app" where
  "addBlueMarkers cs s =
     ([length (markerObjs s) ..< length (markerObjs s) + length cs],
      s\<lparr>markerObjs := markerObjs s @
            map (\<lambda>c. \<lparr>mk_color = Blue, mk_lngLat = c, mk_added = True\<rparr>) cs\<rparr>)"

text \<open>
  \<^verbatim>\<open>if (map.getLayer('route')) map.removeLayer('route'); if (map.getSource('route')) map.removeSource('route');\<close>
\<close>

definition removeRoute :: "app \<Rightarrow> app" where
  "removeRoute s =
     (let s1 = (if routeLayer s \<noteq> None then s\<lparr>routeLayer := None\<rparr> else s)
      in if routeSource s1 \<noteq> None then s1\<lparr>routeSource := None\<rparr> else s1)"

text \<open>
  The same two removals behind the session's flags, as \<^verbatim>\<open>cleanup\<close> and
  \<^verbatim>\<open>showAllMarkersAndRoute\<close> write them.
\<close>

definition removeOwnRoute :: "session \<Rightarrow> app \<Rightarrow> app" where
  "removeOwnRoute ss s =
     (let s1 = (if routeLayerAdded ss \<and> routeLayer s \<noteq> None then s\<lparr>routeLayer := None\<rparr> else s)
      in if routeSourceAdded ss \<and> routeSource s1 \<noteq> None then s1\<lparr>routeSource := None\<rparr> else s1)"

text \<open>\<^verbatim>\<open>(map.getSource('route') as GeoJSONSource)?.setData(...)\<close>: nothing without the source.\<close>

definition setRouteData :: "coord list \<Rightarrow> app \<Rightarrow> app" where
  "setRouteData cs s = (if routeSource s \<noteq> None then s\<lparr>routeSource := Some cs\<rparr> else s)"

text \<open>\<^verbatim>\<open>coords.reduce((b, c) => b.extend(c), new mapboxgl.LngLatBounds(coords[0], coords[0]))\<close>.\<close>

definition extend :: "coord \<Rightarrow> coord \<times> coord \<Rightarrow> coord \<times> coord" where
  "extend c b =
     ((min (fst (fst b)) (fst c), min (snd (fst b)) (snd c)),
      (max (fst (snd b)) (fst c), max (snd (snd b)) (snd c)))"

definition updSession :: "nat \<Rightarrow> (session \<Rightarrow> session) \<Rightarrow> app \<Rightarrow> app" where
  "updSession sid f s = s\<lparr>sessions := (sessions s)[sid := f (sessions s ! sid)]\<rparr>"

subsection \<open>The closures of one effect run\<close>

text \<open>\<^verbatim>\<open>cleanup\<close> of run \<open>sid\<close>.\<close>

definition cleanup :: "nat \<Rightarrow> app \<Rightarrow> app" where
  "cleanup sid s =
     (let ss = sessions s ! sid
      in if cleanupDone ss then s
         else
           (let s1 = updSession sid (\<lambda>x. x\<lparr>cleanupDone := True\<rparr>) s;
                s2 = (case animationFrame ss of
                        Some fid \<Rightarrow> cancelAnimationFrame fid s1
                      | None \<Rightarrow> s1);
                s3 = markerRemove (s_marker ss) s2
            in removeOwnRoute ss s3))"

text \<open>
  \<^verbatim>\<open>animateSegment(start, end, onDone)\<close> of run \<open>sid\<close>, up to its
  \<^verbatim>\<open>animationFrame = requestAnimationFrame(frame)\<close>.  \<^verbatim>\<open>onDone\<close> is always the
  callback written in \<^verbatim>\<open>animateRoute\<close>, modelled as \<open>onDone\<close> below.
\<close>

definition animateSegment :: "nat \<Rightarrow> coord \<Rightarrow> coord \<Rightarrow> app \<Rightarrow> app" where
  "animateSegment sid start end s =
     (let baseDuration = 3500;
          duration = baseDuration / s_animationSpeed (sessions s ! sid);
          startTime = now s;
          (fid, s1) = requestAnimationFrame
                        \<lparr>f_session = sid, f_start = start, f_end = end, f_t = 0,
                         f_duration = duration, f_startTime = startTime\<rparr> s
      in updSession sid (\<lambda>x. x\<lparr>animationFrame := Some fid\<rparr>) s1)"

text \<open>\<^verbatim>\<open>animateRoute\<close> of run \<open>sid\<close>, without the body of the callback it passes on.\<close>

definition animateRoute :: "nat \<Rightarrow> app \<Rightarrow> app" where
  "animateRoute sid s =
     (let ss = sessions s ! sid
      in if segIndex ss < length (s_coords ss) - 1
         then animateSegment sid (s_coords ss ! segIndex ss) (s_coords ss ! (segIndex ss + 1))
                (s\<lparr>currentSegment := segIndex ss + 1\<rparr>)
         else s)"

text \<open>
  \<^verbatim>\<open>showAllMarkersAndRoute\<close> of run \<open>sid\<close>.  It runs only after \<^verbatim>\<open>onMoveEnd\<close> has set both
  flags, so its \<^verbatim>\<open>addSource\<close> and \<^verbatim>\<open>addLayer\<close> never meet an existing \<^verbatim>\<open>'route'\<close>.
\<close>

definition showAllMarkersAndRoute :: "nat \<Rightarrow> app \<Rightarrow> app" where
  "showAllMarkersAndRoute sid s =
     (let ss = sessions s ! sid;
          s1 = markerRemove (s_marker ss) s;
          s2 = removeOwnRoute ss s1;
          s3 = s2\<lparr>routeSource := Some (s_coords ss), routeLayer := Some (2, 4)\<rparr>;
          (newMarkers, s4) = addBlueMarkers (s_coords ss) s3;
          bounds = fold extend (s_coords ss) (s_coords ss ! 0, s_coords ss ! 0)
      in s4\<lparr>markers := newMarkers, camera := Some (FitBounds (fst bounds) (snd bounds))\<rparr>)"

text \<open>The callback that \<^verbatim>\<open>animateRoute\<close> passes to \<^verbatim>\<open>animateSegment\<close>.\<close>

definition onDone :: "nat \<Rightarrow> app \<Rightarrow> app" where
  "onDone sid s =
     (let s1 = updSession sid (\<lambda>x. x\<lparr>segIndex := segIndex x + 1\<rparr>) s;
          ss = sessions s1 ! sid
      in if segIndex ss < length (s_coords ss) - 1
         then animateRoute sid s1
         else showAllMarkersAndRoute sid
                (playSound (s_soundEnabled ss) CueComplete
                   (s1\<lparr>animating := False, animationRequested := False\<rparr>)))"

text \<open>
  The zoom of a frame at raw progress \<open>t\<close>, the \<^verbatim>\<open>let zoom = 8; if (t < 0.18) ... else if (t > 0.82) ... else ...\<close>
  block of \<^verbatim>\<open>frame\<close>.
\<close>

definition zoomAt :: "real \<Rightarrow> real" where
  "zoomAt t =
     (if t < 0.18 then 8 + 2 * (t / 0.18)
      else if t > 0.82 then 10 - 2 * ((t - 0.82) / 0.18)
      else 10)"

text \<open>
  \<^verbatim>\<open>frame(now)\<close>: the host runs the callback registered under \<open>fid\<close> and passes it the
  current time.
\<close>

definition frame :: "nat \<Rightarrow> app \<Rightarrow> app" where
  "frame fid s =
     (case map_of (frames s) fid of
        None \<Rightarrow> s
      | Some cb \<Rightarrow>
          (let s0 = s\<lparr>frames := filter (\<lambda>e. fst e \<noteq> fid) (frames s)\<rparr>
           in if isPaused s0
              then (let (fid', s1) = requestAnimationFrame cb s0
                    in s1\<lparr>currentFrame := Some fid'\<rparr>)
              else
                (let sid = f_session cb;
                     start = f_start cb;
                     end = f_end cb;
                     t = min ((now s0 - f_startTime cb) / f_duration cb) 1;
                     smoothT = easeInOutCubic t;
                     lng = fst start + (fst end - fst start) * smoothT;
                     lat = snd start + (snd end - snd start) * smoothT;
                     ss = sessions s0 ! sid;
                     s1 = markerSetLngLat (s_marker ss) (lng, lat) s0;
                     s2 = setRouteData (progressCoords ss @ [(lng, lat)]) s1;
                     zoom = zoomAt t;
                     s3 = s2\<lparr>camera := Some (EaseTo (lng, lat) zoom)\<rparr>
                 in if t < 1
                    then (let (fid', s4) = requestAnimationFrame (cb\<lparr>f_t := t\<rparr>) s3
                          in updSession sid (\<lambda>x. x\<lparr>animationFrame := Some fid'\<rparr>) s4)
                    else
                      (let s4 = updSession sid
                                  (\<lambda>x. x\<lparr>progressCoords := progressCoords x @ [end]\<rparr>) s3;
                           s5 = markerSetLngLat (s_marker ss) end s4;
                           s6 = setRouteData (progressCoords (sessions s5 ! sid)) s5;
                           s7 = playSound (s_soundEnabled ss) CueSegment s6
                       in onDone sid s7))))"

text \<open>\<^verbatim>\<open>onMoveEnd\<close> of run \<open>sid\<close>.\<close>

definition onMoveEnd :: "nat \<Rightarrow> app \<Rightarrow> app" where
  "onMoveEnd sid s =
     (let s1 = removeRoute s;
          s2 = s1\<lparr>routeSource := Some (progressCoords (sessions s1 ! sid))\<rparr>;
          s3 = updSession sid (\<lambda>x. x\<lparr>routeSourceAdded := True\<rparr>) s2;
          s4 = s3\<lparr>routeLayer := Some (2, 3)\<rparr>;
          s5 = updSession sid (\<lambda>x. x\<lparr>routeLayerAdded := True\<rparr>) s4;
          s6 = animateRoute sid s5
      in s6\<lparr>moveend := removeAll sid (moveend s6)\<rparr>)"

subsection \<open>The effects\<close>

text \<open>
  The body of the animation effect, run in a render whose \<^verbatim>\<open>markers\<close> is \<open>ms\<close>.  The early
  return hands React no cleanup function.
\<close>

definition animationEffect :: "nat list \<Rightarrow> app \<Rightarrow> app" where
  "animationEffect ms s =
     (if \<not> animationRequested s \<or> \<not> mapRef s \<or> length (coords s) < 2
      then s\<lparr>effectCleanup := None\<rparr>
      else
        (let sid = length (sessions s);
             s1 = s\<lparr>animationPaused := False, currentSegment := 0,
                    isPaused := False, currentFrame := None\<rparr>;
             s2 = removeRoute s1;
             s3 = removeMarkers ms s2;
             (m, s4) = newMarker Yellow (coords s ! 0) s3;
             s5 = s4\<lparr>sessions := sessions s4 @
                      [\<lparr>s_coords = coords s, s_animationSpeed = animationSpeed s,
                        s_soundEnabled = soundEnabled s, animationFrame = None, s_marker = m,
                        routeLayerAdded = False, routeSourceAdded = False, cleanupDone = False,
                        progressCoords = [coords s ! 0], segIndex = 0\<rparr>]\<rparr>;
             s6 = playSound (soundEnabled s) CueStart s5
         in s6\<lparr>animating := True, camera := Some (FlyTo (coords s ! 0) 10),
               moveend := moveend s6 @ [sid], effectCleanup := Some sid\<rparr>))"

text \<open>
  The effect that places a marker on every coordinate and flies to the last one
  (dependency list \<^verbatim>\<open>[coords]\<close>), run in a render whose \<^verbatim>\<open>markers\<close> is \<open>ms\<close>.
\<close>

definition placeMarkersEffect :: "nat list \<Rightarrow> app \<Rightarrow> app" where
  "placeMarkersEffect ms s =
     (if \<not> mapRef s \<or> length (coords s) = 0 then s
      else
        (let s1 = removeMarkers ms s;
             (newMarkers, s2) = addBlueMarkers (coords s) s1
         in s2\<lparr>markers := newMarkers, camera := Some (FlyTo (last (coords s)) 10)\<rparr>))"

text \<open>
  A commit.  React compares the dependency lists with those of the previous run; for
  the effects that changed it first calls the cleanup it holds and then runs the bodies
  in the order of their declaration: the marker effect, the animation effect
  (\<^verbatim>\<open>[coords, animationRequested, animationSpeed]\<close>), the pause effect
  (\<^verbatim>\<open>[animationPaused]\<close>).  The state setters of the animation effect take effect in a
  render of their own, in which only the pause effect can have changed.

  The older path effect (\<^verbatim>\<open>map.on('load', ...)\<close> on every change of \<^verbatim>\<open>coords\<close>) is not
  modelled: its listener only runs if the map's \<^verbatim>\<open>load\<close> event comes after two places
  have been resolved.
\<close>

definition commit :: "app \<Rightarrow> app" where
  "commit s =
     (let deps = (coordsId s, animationRequested s, animationSpeed s);
          coordsChanged = (coordsId s \<noteq> fst (effectDeps s));
          animationChanged = (deps \<noteq> effectDeps s);
          ms = markers s;
          s1 = (if animationChanged
                then (case effectCleanup s of Some sid \<Rightarrow> cleanup sid s | None \<Rightarrow> s)
                else s);
          s2 = (if coordsChanged then placeMarkersEffect ms s1 else s1);
          s3 = (if animationChanged then (animationEffect ms s2)\<lparr>effectDeps := deps\<rparr> else s2)
      in if animationPaused s3 \<noteq> pausedDep s3
         then s3\<lparr>isPaused := animationPaused s3, pausedDep := animationPaused s3\<rparr>
         else s3)"

subsection \<open>Events\<close>

text \<open>
  The \<open>k\<close>-th stop of \<^verbatim>\<open><input type="range" min="0.5" max="3" step="0.5">\<close>; the stops are
  numbered from 0 to 5.
\<close>

definition sliderValue :: "nat \<Rightarrow> real" where
  "sliderValue k = 0.5 + 0.5 * real k"

text \<open>
  What can happen to the animation: the map is created; a pass of \<^verbatim>\<open>fetchCoords\<close>
  reaches its setters with \<open>results\<close>; the user clicks the start, pause or sound button
  or moves the speed slider to a stop; the map emits \<^verbatim>\<open>moveend\<close>; the host runs the
  frame callback with a given id; time passes.  The control panel is rendered only
  while \<^verbatim>\<open>coords.length > 1\<close>, the pause button only while \<^verbatim>\<open>animating\<close>; the start
  button carries \<^verbatim>\<open>disabled={animating || coords.length < 2}\<close> and the slider
  \<^verbatim>\<open>disabled={animating}\<close>.  An event on a control that is absent or disabled is not
  delivered, so it changes nothing and causes no render.
\<close>

datatype event =
    MapCreated
  | Resolved "coord list"
  | StartClick
  | PauseClick
  | SpeedChange nat
  | SoundClick
  | MoveEnd
  | Frame nat
  | Tick real

definition panelShown :: "app \<Rightarrow> bool" where
  "panelShown s = (length (coords s) > 1)"

definition startDisabled :: "app \<Rightarrow> bool" where
  "startDisabled s = (animating s \<or> length (coords s) < 2)"

text \<open>\<^verbatim>\<open>onClick={() => setAnimationRequested(true)}\<close> followed by the commit.\<close>

definition requestAnimation :: "app \<Rightarrow> app" where
  "requestAnimation s = commit (s\<lparr>animationRequested := True\<rparr>)"

fun step :: "event \<Rightarrow> app \<Rightarrow> app" where
  "step MapCreated s = s\<lparr>mapRef := True\<rparr>"
| "step (Resolved results) s =
     commit ((storeResults results s)\<lparr>coordsId := coordsId s + 1\<rparr>)"
| "step StartClick s =
     (if panelShown s \<and> \<not> startDisabled s then requestAnimation s else s)"
| "step PauseClick s =
     (if panelShown s \<and> animating s
      then commit (s\<lparr>animationPaused := \<not> animationPaused s\<rparr>)
      else s)"
| "step (SpeedChange k) s =
     (if panelShown s \<and> \<not> animating s \<and> k \<le> 5
      then commit (s\<lparr>animationSpeed := sliderValue k\<rparr>)
      else s)"
| "step SoundClick s =
     (if panelShown s then s\<lparr>soundEnabled := \<not> soundEnabled s\<rparr> else s)"
| "step MoveEnd s = commit (fold onMoveEnd (moveend s) s)"
| "step (Frame fid) s = commit (frame fid s)"
| "step (Tick d) s = (if 0 \<le> d then s\<lparr>now := now s + d\<rparr> else s)"

definition run :: "event list \<Rightarrow> app" where
  "run evs = foldl (\<lambda>s e. step e s) app_init evs"

text \<open>
  A state between two events: every effect has run with the dependencies the state now
  has.
\<close>

definition settled :: "app \<Rightarrow> bool" where
  "settled s \<longleftrightarrow>
     effectDeps s = (coordsId s, animationRequested s, animationSpeed s) \<and>
     pausedDep s = animationPaused s"

text \<open>The six stops of the speed slider.\<close>

definition speedStops :: "real list" where
  "speedStops = map sliderValue [0..<6]"

subsection \<open>What holds of the sessions after any sequence of events\<close>

text \<open>
  A run's confirmed prefix \<^verbatim>\<open>progressCoords\<close> is the first \<open>i + 1\<close> coordinates it closed
  over, \<open>i\<close> stays inside that list, the list has at least two entries, and the speed it
  closed over is one of the stops.
\<close>

definition wf_session :: "session \<Rightarrow> bool" where
  "wf_session ss \<longleftrightarrow>
     progressCoords ss = take (Suc (segIndex ss)) (s_coords ss) \<and>
     segIndex ss < length (s_coords ss) \<and>
     2 \<le> length (s_coords ss) \<and>
     s_animationSpeed ss \<in> set speedStops"

text \<open>
  A pending frame callback belongs to an existing run, its \<^verbatim>\<open>end\<close> is the coordinate after
  the run's current index, and its \<^verbatim>\<open>duration\<close> is 3500 divided by the run's speed.
\<close>

definition wf_frame :: "session list \<Rightarrow> frameCb \<Rightarrow> bool" where
  "wf_frame sss cb \<longleftrightarrow>
     f_session cb < length sss \<and>
     Suc (segIndex (sss ! f_session cb)) < length (s_coords (sss ! f_session cb)) \<and>
     f_end cb = s_coords (sss ! f_session cb) ! Suc (segIndex (sss ! f_session cb)) \<and>
     f_duration cb = 3500 / s_animationSpeed (sss ! f_session cb)"

text \<open>The runs that own the pending frame callbacks, in the order of the callbacks.\<close>

definition frameSessions :: "app \<Rightarrow> nat list" where
  "frameSessions s = map (\<lambda>e. f_session (snd e)) (frames s)"

text \<open>
  The invariant: every run and every pending callback is as above, no run has two
  pending callbacks, a run that still waits for \<^verbatim>\<open>moveend\<close> has no callback, and the
  selected speed is one of the stops.
\<close>

definition sessions_ok :: "app \<Rightarrow> bool" where
  "sessions_ok s \<longleftrightarrow>
     list_all wf_session (sessions s) \<and>
     list_all (\<lambda>e. wf_frame (sessions s) (snd e)) (frames s) \<and>
     distinct (frameSessions s) \<and>
     list_all (\<lambda>sid. sid < length (sessions s) \<and> sid \<notin> set (frameSessions s)) (moveend s) \<and>
     distinct (moveend s) \<and>
     animationSpeed s \<in> set speedStops"


subsection \<open>Markers off the map\<close>

text \<open>The marker with handle \<open>m\<close> exists and is not on the map.\<close>

definition gone :: "nat \<Rightarrow> app \<Rightarrow> bool" where
  "gone m s \<longleftrightarrow> m < length (markerObjs s) \<and> \<not> mk_added (markerObjs s ! m)"

text \<open>The marker list after \<^verbatim>\<open>remove()\<close> has been called on each handle in \<open>ms\<close>.\<close>

definition detach :: "nat list \<Rightarrow> marker list \<Rightarrow> marker list" where
  "detach ms objs = fold (\<lambda>m xs. xs[m := (xs ! m)\<lparr>mk_added := False\<rparr>]) ms objs"

subsection \<open>The session whose cleanup React holds\<close>

text \<open>
  \<open>effectCleanup\<close> names the run whose \<^verbatim>\<open>cleanup\<close> React will call before the next run of
  the animation effect.  For that run the following holds between events: it exists,
  its \<^verbatim>\<open>cleanup\<close> has not run yet, its animated marker exists, and the request flag and
  the map are set.
\<close>

definition current_ok :: "app \<Rightarrow> bool" where
  "current_ok s \<longleftrightarrow>
     (case effectCleanup s of
        None \<Rightarrow> True
      | Some sid \<Rightarrow>
          sid < length (sessions s) \<and> \<not> cleanupDone (sessions s ! sid) \<and>
          s_marker (sessions s ! sid) < length (markerObjs s) \<and>
          animationRequested s \<and> mapRef s)"

text \<open>
  What no event handler touches before its commit: the cleanup React holds, the
  dependencies of the last effect run, the map, the number of runs, and of every run
  whether its \<^verbatim>\<open>cleanup\<close> has run and which marker it animates; no marker object
  disappears.
\<close>

definition keeps :: "app \<Rightarrow> app \<Rightarrow> bool" where
  "keeps s s' \<longleftrightarrow>
     effectCleanup s' = effectCleanup s \<and> effectDeps s' = effectDeps s \<and>
     mapRef s' = mapRef s \<and>
     length (sessions s') = length (sessions s) \<and>
     (\<forall>k. cleanupDone (sessions s' ! k) = cleanupDone (sessions s ! k) \<and>
          s_marker (sessions s' ! k) = s_marker (sessions s ! k)) \<and>
     length (markerObjs s) \<le> length (markerObjs s')"


section \<open>Properties of the estimator and the easing\<close>

lemma totalDistLoop_sum:
  "i \<le> length results - 1 \<Longrightarrow>
   totalDistLoop results i acc =
     acc + (\<Sum>k = i..<length results - 1. calculateDistance (results ! k) (results ! (k + 1)))"
proof (induction results i acc rule: totalDistLoop.induct)
  case (1 results i totalDist)
  show ?case
  proof (cases "i < length results - 1")
    case True
    then have "totalDistLoop results i totalDist =
        totalDistLoop results (i + 1)
          (totalDist + calculateDistance (results ! i) (results ! (i + 1)))"
      by (subst totalDistLoop.simps) simp
    also have "\<dots> = totalDist + calculateDistance (results ! i) (results ! (i + 1)) +
        (\<Sum>k = i + 1..<length results - 1. calculateDistance (results ! k) (results ! (k + 1)))"
      using True by (intro "1.IH") auto
    also have "\<dots> = totalDist +
        (\<Sum>k = i..<length results - 1. calculateDistance (results ! k) (results ! (k + 1)))"
      using True by (simp add: sum.atLeast_Suc_lessThan)
    finally show ?thesis .
  next
    case False
    with "1.prems" have "i = length results - 1" by simp
    then show ?thesis by (subst totalDistLoop.simps) simp
  qed
qed

lemma ease_lower_half: "0 \<le> x \<Longrightarrow> x < 1 / 2 \<Longrightarrow> 4 * x * x * x \<le> (1 / 2 :: real)"
proof -
  assume a: "0 \<le> x" "x < 1 / 2"
  have "x ^ 3 \<le> (1 / 2) ^ 3" using a by (intro power_mono) auto
  then show ?thesis by (simp add: power3_eq_cube algebra_simps)
qed

lemma ease_upper_half: "1 / 2 \<le> y \<Longrightarrow> y \<le> 1 \<Longrightarrow> (1 / 2 :: real) \<le> 1 - (- 2 * y + 2) ^ 3 / 2"
proof -
  assume a: "1 / 2 \<le> y" "y \<le> 1"
  have "(- 2 * y + 2) ^ 3 \<le> 1 ^ 3" using a by (intro power_mono) auto
  then show ?thesis by simp
qed

text \<open>
  C9.  The easing \<open>f(t) = t < 0.5 ? 4t\<^sup>3 : 1 - (-2t+2)\<^sup>3/2\<close> of \<^verbatim>\<open>animateSegment\<close> satisfies
  \<open>f(0) = 0\<close>, \<open>f(1) = 1\<close>, and is monotonically non-decreasing on \<open>[0, 1]\<close>.
\<close>

theorem easeInOutCubic_endpoints_mono:
  "easeInOutCubic 0 = 0 \<and> easeInOutCubic 1 = 1 \<and>
   (\<forall>x y. 0 \<le> x \<and> x \<le> y \<and> y \<le> 1 \<longrightarrow> easeInOutCubic x \<le> easeInOutCubic y)"
proof (intro conjI allI impI)
  show "easeInOutCubic 0 = 0" by (simp add: easeInOutCubic_def)
  show "easeInOutCubic 1 = 1" by (simp add: easeInOutCubic_def)
next
  fix x y :: real
  assume h: "0 \<le> x \<and> x \<le> y \<and> y \<le> 1"
  consider (low) "y < 1 / 2" | (mid) "x < 1 / 2" "1 / 2 \<le> y" | (high) "1 / 2 \<le> x"
    by linarith
  then show "easeInOutCubic x \<le> easeInOutCubic y"
  proof cases
    case low
    have "x ^ 3 \<le> y ^ 3" using h by (intro power_mono) auto
    then show ?thesis using low h by (simp add: easeInOutCubic_def power3_eq_cube algebra_simps)
  next
    case mid
    have "4 * x * x * x \<le> 1 / 2" using h mid by (intro ease_lower_half) auto
    moreover have "1 / 2 \<le> 1 - (- 2 * y + 2) ^ 3 / 2" using h mid by (intro ease_upper_half) auto
    ultimately show ?thesis using mid by (simp add: easeInOutCubic_def)
  next
    case high
    have "(- 2 * y + 2) ^ 3 \<le> (- 2 * x + 2) ^ 3" using h by (intro power_mono) auto
    then show ?thesis using high h by (simp add: easeInOutCubic_def)
  qed
qed

theorem easeInOutCubic_endpoints_mono_witness:
  "easeInOutCubic (1 / 4) = 1 / 16 \<and> easeInOutCubic (3 / 4) = 15 / 16 \<and>
   easeInOutCubic (1 / 4) \<le> easeInOutCubic (3 / 4)"
proof -
  have "easeInOutCubic (1 / 4) \<le> easeInOutCubic (3 / 4)"
    using easeInOutCubic_endpoints_mono by simp
  moreover have "easeInOutCubic (1 / 4) = 1 / 16" by (simp add: easeInOutCubic_def)
  moreover have "easeInOutCubic (3 / 4) = 15 / 16" by (simp add: easeInOutCubic_def power3_eq_cube)
  ultimately show ?thesis by simp
qed

lemma calculateDistance_same: "calculateDistance c c = 0"
  by (simp add: calculateDistance_def atan2_def)

lemma calculateDistance_half_equator: "calculateDistance (0, 0) (180, 0) = 6371 * pi"
  by (simp add: calculateDistance_def atan2_def)

text \<open>
  C3.  For every coordinate list of length \<open>n\<close>: if \<open>n < 2\<close> then distance and eta are both
  0; if \<open>n \<ge> 2\<close> the distance is the sum of \<^verbatim>\<open>calculateDistance(c[i], c[i+1])\<close> (the
  haversine distance with radius 6371) over \<open>i\<close> in \<open>[0, n-2]\<close>, and the eta is the
  distance divided by 60.
\<close>

theorem distanceAndEta_sum:
  "(length cs < 2 \<longrightarrow> distanceAndEta cs = (0, 0)) \<and>
   (2 \<le> length cs \<longrightarrow>
      fst (distanceAndEta cs) =
        (\<Sum>i = 0..length cs - 2. calculateDistance (cs ! i) (cs ! (i + 1))) \<and>
      snd (distanceAndEta cs) = fst (distanceAndEta cs) / 60)"
proof (intro conjI impI)
  assume "length cs < 2"
  then show "distanceAndEta cs = (0, 0)" by (simp add: distanceAndEta_def)
next
  assume n: "2 \<le> length cs"
  have "{0..<length cs - 1} = {0..length cs - 2}" using n by auto
  then show "fst (distanceAndEta cs) =
      (\<Sum>i = 0..length cs - 2. calculateDistance (cs ! i) (cs ! (i + 1)))"
    using n by (simp add: distanceAndEta_def totalDistLoop_sum Let_def)
next
  assume n: "2 \<le> length cs"
  then show "snd (distanceAndEta cs) = fst (distanceAndEta cs) / 60"
    by (simp add: distanceAndEta_def Let_def)
qed

theorem distanceAndEta_sum_witness:
  "distanceAndEta [(0, 0)] = (0, 0) \<and>
   distanceAndEta [(0, 0), (180, 0), (180, 0)] = (6371 * pi, 6371 * pi / 60)"
proof -
  have one: "distanceAndEta [(0, 0)] = (0, 0)"
    using distanceAndEta_sum [of "[(0, 0)]"] by simp
  have s: "(\<Sum>i = 0..Suc 0. f i) = f 0 + f (Suc 0)" for f :: "nat \<Rightarrow> real" by simp
  have "fst (distanceAndEta [(0, 0), (180, 0), (180, 0)]) = 6371 * pi \<and>
        snd (distanceAndEta [(0, 0), (180, 0), (180, 0)]) =
        fst (distanceAndEta [(0, 0), (180, 0), (180, 0)]) / 60"
    using distanceAndEta_sum [of "[(0, 0), (180, 0), (180, 0)]"]
    by (simp add: calculateDistance_same calculateDistance_half_equator s)
  then have "distanceAndEta [(0, 0), (180, 0), (180, 0)] = (6371 * pi, 6371 * pi / 60)"
    by (simp add: prod_eq_iff)
  with one show ?thesis by simp
qed

text \<open>
  Every pass that \<^verbatim>\<open>fetchCoords\<close> finishes writes the estimate of the list it has just
  stored.
\<close>

lemma fetchCoords_estimate:
  "fetchCoords geocode names s = Inr s' \<Longrightarrow>
   (totalDistance s', estimatedTime s') = distanceAndEta (coords s')"
  by (auto simp: fetchCoords_def storeResults_def split: sum.splits)

subsection \<open>Order and dropping in the resolution pass\<close>

text \<open>
  When no request of the pass rejects, the stored list holds the first feature's centre
  of every place that has one, in the order of the place list; a place without a first
  feature leaves no entry behind.
\<close>

lemma fetchCoordsLoop_answered:
  "\<forall>p \<in> set names. \<not> rejects geocode p \<Longrightarrow>
   fetchCoordsLoop geocode names results =
     Inr (results @ List.map_filter (resolveOne geocode) names)"
proof (induction names arbitrary: results)
  case Nil
  then show ?case by (simp add: map_filter_simps)
next
  case (Cons p ps)
  then show ?case
    by (auto simp: map_filter_simps resolveOne_def rejects_def
             split: response.splits body.splits option.splits list.splits)
qed

lemma fetchCoords_answered:
  "\<forall>p \<in> set names. \<not> rejects geocode p \<Longrightarrow>
   \<exists>s'. fetchCoords geocode names s = Inr s' \<and>
        coords s' = List.map_filter (resolveOne geocode) names"
  by (simp add: fetchCoords_def storeResults_def fetchCoordsLoop_answered)

lemma fetchCoordsLoop_rejected:
  "\<exists>p \<in> set names. rejects geocode p \<Longrightarrow> \<exists>e. fetchCoordsLoop geocode names results = Inl e"
proof (induction names arbitrary: results)
  case Nil
  then show ?case by simp
next
  case (Cons p ps)
  show ?case
  proof (cases "rejects geocode p")
    case True
    then show ?thesis
      by (auto simp: rejects_def split: response.splits body.splits)
  next
    case False
    with Cons.prems have "\<exists>q \<in> set ps. rejects geocode q" by auto
    then have "\<exists>e. fetchCoordsLoop geocode ps r = Inl e" for r
      by (rule Cons.IH)
    then show ?thesis
      by (auto split: response.splits body.splits option.splits list.splits)
  qed
qed

lemma fetchCoordsLoop_returned:
  "fetchCoordsLoop geocode names results = Inr out \<Longrightarrow>
   out = results @ List.map_filter (resolveOne geocode) names"
proof (cases "\<forall>p \<in> set names. \<not> rejects geocode p")
  case True
  assume "fetchCoordsLoop geocode names results = Inr out"
  with fetchCoordsLoop_answered [OF True, of results] show ?thesis by simp
next
  case False
  assume r: "fetchCoordsLoop geocode names results = Inr out"
  from False have "\<exists>p \<in> set names. rejects geocode p" by blast
  from fetchCoordsLoop_rejected [OF this, of results] r show ?thesis by auto
qed

lemma length_map_filter_le: "length (List.map_filter f xs) \<le> length xs"
  by (induction xs) (auto simp: map_filter_simps split: option.splits)

text \<open>
  The passes that reach \<^verbatim>\<open>setCoords\<close>.  Whenever a pass stores a coordinate list, that
  list holds exactly the coordinates of the entries that have a first feature, in input
  order; the other entries are dropped without a placeholder, so the list can be
  shorter than the place list.  A pass does store a list whenever every request is
  answered with a JSON body.
\<close>

lemma resolveAll_order_and_dropping:
  "((\<forall>p \<in> set names. \<not> rejects geocode p) \<longrightarrow>
      (\<exists>s'. fetchCoords geocode names s = Inr s' \<and>
            coords s' = List.map_filter (resolveOne geocode) names)) \<and>
   (fetchCoords geocode names s = Inr s' \<longrightarrow>
      coords s' = List.map_filter (resolveOne geocode) names \<and>
      length (coords s') \<le> length names)"
proof (intro conjI impI)
  assume "\<forall>p \<in> set names. \<not> rejects geocode p"
  then show "\<exists>s'. fetchCoords geocode names s = Inr s' \<and>
      coords s' = List.map_filter (resolveOne geocode) names"
    by (rule fetchCoords_answered)
next
  assume r: "fetchCoords geocode names s = Inr s'"
  then obtain out where o: "fetchCoordsLoop geocode names [] = Inr out" and c: "coords s' = out"
    by (auto simp: fetchCoords_def storeResults_def split: sum.splits)
  from fetchCoordsLoop_returned [OF o] c
  show "coords s' = List.map_filter (resolveOne geocode) names" by simp
  then show "length (coords s') \<le> length names" by (simp add: length_map_filter_le)
qed

lemma resolveAll_order_and_dropping_witness:
  "\<not> rejects exampleGeocoder ''Paris'' \<and> \<not> rejects exampleGeocoder ''Atlantis'' \<and>
   \<not> rejects exampleGeocoder ''Nowhere'' \<and> \<not> rejects exampleGeocoder ''Tokyo'' \<and>
   fetchCoords exampleGeocoder [''Paris'', ''Atlantis'', ''Nowhere'', ''Tokyo'']
       \<lparr>coords = [], totalDistance = 0, estimatedTime = 0\<rparr> =
     Inr \<lparr>coords = [(2.35, 48.85), (139.69, 35.68)],
          totalDistance = fst (distanceAndEta [(2.35, 48.85), (139.69, 35.68)]),
          estimatedTime = snd (distanceAndEta [(2.35, 48.85), (139.69, 35.68)])\<rparr> \<and>
   List.map_filter (resolveOne exampleGeocoder) [''Paris'', ''Atlantis'', ''Nowhere'', ''Tokyo''] =
     [(2.35, 48.85), (139.69, 35.68)]"
proof -
  let ?ps = "[''Paris'', ''Atlantis'', ''Nowhere'', ''Tokyo'']"
  let ?s = "\<lparr>coords = [], totalDistance = 0, estimatedTime = 0\<rparr>"
  let ?s' = "\<lparr>coords = [(2.35, 48.85), (139.69, 35.68)],
          totalDistance = fst (distanceAndEta [(2.35, 48.85), (139.69, 35.68)]),
          estimatedTime = snd (distanceAndEta [(2.35, 48.85), (139.69, 35.68)])\<rparr>"
  have a: "\<forall>p \<in> set ?ps. \<not> rejects exampleGeocoder p"
    by (simp add: rejects_def exampleGeocoder_def)
  have b: "fetchCoords exampleGeocoder ?ps ?s = Inr ?s'"
    by (simp add: fetchCoords_def storeResults_def exampleGeocoder_def)
  from resolveAll_order_and_dropping [of ?ps exampleGeocoder ?s ?s'] a b
  have "coords ?s' = List.map_filter (resolveOne exampleGeocoder) ?ps" by blast
  then show ?thesis using a b by simp
qed

text \<open>
  C4.  The claim: for every place list the entries are resolved in list order, the
  output holds exactly the coordinates of the entries that were resolved, in input
  order, and a failed resolution is dropped.  The place list is Paris, Lyon, Tokyo;
  the requests for Paris and Tokyo are answered with a match and the request for Lyon
  fails.  The claim asks for the two coordinates of Paris and Tokyo.  Neither \<^verbatim>\<open>await\<close>
  of \<^verbatim>\<open>fetchCoords\<close> is inside a \<^verbatim>\<open>try\<close>: the failed request ends the pass before
  \<^verbatim>\<open>setCoords\<close>, no coordinate list is stored, and the coordinate of Paris, already
  resolved, is lost with it.
\<close>

theorem fetchCoords_rejection_aborts:
  "fetchCoords exampleGeocoder [''Paris'', ''Lyon'', ''Tokyo'']
     \<lparr>coords = [], totalDistance = 0, estimatedTime = 0\<rparr> = Inl FetchRejected"
  by (simp add: fetchCoords_def exampleGeocoder_def)

subsection \<open>The suggestion effect\<close>

lemma ui_inv_init: "ui_inv tok ui_init"
  by (simp add: ui_inv_def ui_init_def)

lemma ui_inv_fields:
  assumes "ui_inv tok s" and q: "queries s' = queries s" and r: "requests s' = requests s"
    and t: "timeouts s' = timeouts s" and c: "cleanupFn s' = cleanupFn s"
    and g: "suggestions s' = suggestions s \<or> suggestions s' = []"
  shows "ui_inv tok s'"
proof -
  from assms(1) have f: "tok = [] \<longrightarrow> queries s = [] \<and> suggestions s = []"
    unfolding ui_inv_def by blast
  from f g have f': "tok = [] \<longrightarrow> queries s = [] \<and> suggestions s' = []" by metis
  show ?thesis
    using assms(1) f' unfolding ui_inv_def q r t c by blast
qed

lemma ui_inv_cleanup: "ui_inv tok s \<Longrightarrow> ui_inv tok (suggestionsCleanup s) \<and> cleanupFn (suggestionsCleanup s) = None
   \<and> (\<forall>q < length (queries (suggestionsCleanup s)). q_ignore (queries (suggestionsCleanup s) ! q))"
  by (auto simp: ui_inv_def suggestionsCleanup_def nth_list_update split: option.splits)

lemma ui_inv_effect:
  "ui_inv tok s \<Longrightarrow> cleanupFn s = None \<Longrightarrow> \<forall>q < length (queries s). q_ignore (queries s ! q) \<Longrightarrow>
   ui_inv tok (suggestionsEffect tok s)"
  by (auto simp: ui_inv_def suggestionsEffect_def Let_def nth_append less_Suc_eq)

lemma ui_inv_commit:
  "ui_inv tok s \<Longrightarrow> ui_inv tok (commitInput tok s0 s)"
  using ui_inv_cleanup[of tok s] ui_inv_effect[of tok "suggestionsCleanup s"]
  by (auto simp: commitInput_def)

lemma ui_inv_step: "ui_inv tok s \<Longrightarrow> ui_inv tok (ui_step tok e s)"
proof (cases e)
  case (Change v)
  assume i: "ui_inv tok s"
  have "ui_inv tok (onChange v s)" by (rule ui_inv_fields[OF i]) (simp_all add: onChange_def)
  then show ?thesis using Change by (simp add: ui_inv_commit)
next
  case (KeyDown k)
  assume i: "ui_inv tok s"
  have "ui_inv tok (onKeyDown k s)" 
    by (rule ui_inv_fields[OF i]) (simp_all add: onKeyDown_def handleSuggestionClick_def Let_def split: key.splits)
  then show ?thesis using KeyDown by (simp add: ui_inv_commit)
next
  case AddClick
  assume i: "ui_inv tok s"
  have "ui_inv tok (handleAddPlace tok s)" 
    by (rule ui_inv_fields[OF i]) (simp_all add: handleAddPlace_def Let_def split: option.splits)
  then show ?thesis using AddClick i by (simp add: ui_inv_commit)
next
  case (SuggestionClick k)
  assume i: "ui_inv tok s"
  have "ui_inv tok (handleSuggestionClick p s)" for p
    by (rule ui_inv_fields[OF i]) (simp_all add: handleSuggestionClick_def)
  then show ?thesis using SuggestionClick i by (simp add: ui_inv_commit)
next
  case (RemoveClick idx)
  assume i: "ui_inv tok s"
  have "ui_inv tok (removePlace idx s)"
    by (rule ui_inv_fields[OF i]) (simp_all add: removePlace_def)
  then show ?thesis using RemoveClick i by simp
next
  case (TimeoutFired q)
  assume i: "ui_inv tok s"
  show ?thesis
  proof (cases "q \<in> set (timeouts s)")
    case True
    then have "q < length (queries s)" using i by (simp add: ui_inv_def)
    then show ?thesis using i True TimeoutFired
      by (simp add: ui_inv_def timeoutFired_def split: option.splits)
  next
    case False
    then show ?thesis using i TimeoutFired by (simp add: timeoutFired_def)
  qed
next
  case (Responded q r)
  assume i: "ui_inv tok s"
  show ?thesis
  proof (cases "q \<in> set (requests s)")
    case True
    let ?s1 = "s\<lparr>requests := removeAll q (requests s)\<rparr>"
    have i1: "ui_inv tok ?s1" using i by (simp add: ui_inv_def split: option.splits)
    have ne: "tok \<noteq> []" using i True by (auto simp: ui_inv_def)
    have "ui_inv tok (fetchSuggestions q r ?s1)"
      using i1 ne
      by (simp add: ui_inv_def fetchSuggestions_def Let_def split: response.splits body.splits option.splits)
    then show ?thesis using True Responded by (simp add: responded_def)
  next
    case False
    then show ?thesis using i Responded by (simp add: responded_def)
  qed
qed

lemma ui_inv_foldl: "ui_inv tok s \<Longrightarrow> ui_inv tok (foldl (\<lambda>s e. ui_step tok e s) s evs)"
  by (induction evs arbitrary: s) (simp_all add: ui_inv_step)

lemma ui_inv_run: "ui_inv tok (ui_run tok evs)"
  by (simp add: ui_run_def ui_inv_foldl ui_inv_init)

lemma responded_superseded:
  assumes i: "ui_inv tok s" and c: "cleanupFn s \<noteq> Some q"
  shows "suggestions (responded q r s) = suggestions s"
proof (cases "q \<in> set (requests s)")
  case True
  then have "q < length (queries s)" using i by (simp add: ui_inv_def)
  then have "q_ignore (queries s ! q)" using i c unfolding ui_inv_def by blast
  then show ?thesis using True
    by (simp add: responded_def fetchSuggestions_def Let_def split: response.splits body.splits)
next
  case False
  then show ?thesis by (simp add: responded_def)
qed



lemma trim_nonempty: "trim a \<noteq> [] \<Longrightarrow> a \<noteq> []"
  by (auto simp: trim_def)

lemma current_is_latest: "ui_inv tok s \<Longrightarrow> cleanupFn s = Some q \<Longrightarrow> Suc q = length (queries s)"
  by (simp add: ui_inv_def)

lemmas ui_defs = ui_run_def ui_init_def commitInput_def onChange_def suggestionsCleanup_def
        suggestionsEffect_def timeoutFired_def responded_def fetchSuggestions_def

text \<open>
  C2.  Autocomplete is last-issued-wins.  After any sequence of events, the response to
  a query that is not the current one (its effect run has been cleaned up by a later
  change of the input) leaves the suggestion list as it is, and the current query is
  always the one created last.  In particular, when \<open>a\<close> is typed, its request issued,
  then \<open>ab\<close> typed and its request issued before the first response arrives, the list
  ends up as the response to \<open>ab\<close>, in whichever order the two responses arrive and
  whatever the first one is.
\<close>

theorem last_issued_wins:
  "(cleanupFn (ui_run tok evs) \<noteq> Some q \<longrightarrow>
      suggestions (ui_step tok (Responded q r) (ui_run tok evs)) = suggestions (ui_run tok evs)) \<and>
   (cleanupFn (ui_run tok evs) = Some q \<longrightarrow> Suc q = length (queries (ui_run tok evs))) \<and>
   (tok \<noteq> [] \<and> trim a \<noteq> [] \<and> trim ab \<noteq> [] \<and> ab \<noteq> a \<longrightarrow>
      suggestions (ui_run tok [Change a, TimeoutFired 0, Change ab, TimeoutFired 1,
                               Responded 0 ra, Responded 1 (Http True (Data (Some fs)))]) = fs \<and>
      suggestions (ui_run tok [Change a, TimeoutFired 0, Change ab, TimeoutFired 1,
                               Responded 1 (Http True (Data (Some fs))), Responded 0 ra]) = fs)"
proof (intro conjI impI)
  assume "cleanupFn (ui_run tok evs) \<noteq> Some q"
  then show "suggestions (ui_step tok (Responded q r) (ui_run tok evs)) = suggestions (ui_run tok evs)"
    using responded_superseded [OF ui_inv_run] by simp
next
  assume "cleanupFn (ui_run tok evs) = Some q"
  then show "Suc q = length (queries (ui_run tok evs))"
    using current_is_latest [OF ui_inv_run] by simp
next
  assume h: "tok \<noteq> [] \<and> trim a \<noteq> [] \<and> trim ab \<noteq> [] \<and> ab \<noteq> a"
  then have "a \<noteq> []" by (simp add: trim_nonempty)
  with h show "suggestions (ui_run tok [Change a, TimeoutFired 0, Change ab, TimeoutFired 1,
                               Responded 0 ra, Responded 1 (Http True (Data (Some fs)))]) = fs"
    by (simp add: ui_defs Let_def split: response.splits body.splits)
next
  assume h: "tok \<noteq> [] \<and> trim a \<noteq> [] \<and> trim ab \<noteq> [] \<and> ab \<noteq> a"
  then have "a \<noteq> []" by (simp add: trim_nonempty)
  with h show "suggestions (ui_run tok [Change a, TimeoutFired 0, Change ab, TimeoutFired 1,
                               Responded 1 (Http True (Data (Some fs))), Responded 0 ra]) = fs"
    by (simp add: ui_defs Let_def split: response.splits body.splits)
qed

lemma trim_examples: "trim ''A'' = ''A''" "trim ''AB'' = ''AB''" "trim '' Rome '' = ''Rome''" "trim ''Rome'' = ''Rome''"
  by (simp_all add: trim_def isWhiteSpace_def)

theorem last_issued_wins_witness:
  "cleanupFn (ui_run ''pk'' [Change ''A'', TimeoutFired 0, Change ''AB'']) \<noteq> Some 0 \<and>
   suggestions (ui_step ''pk'' (Responded 0 (Http True (Data (Some [\<lparr>place_name = ''Aachen'', center = (6.08, 50.77), feature_id = ''place.7''\<rparr>]))))
       (ui_run ''pk'' [Change ''A'', TimeoutFired 0, Change ''AB''])) = [] \<and>
   cleanupFn (ui_run ''pk'' [Change ''A'', TimeoutFired 0, Change ''AB'']) = Some 1 \<and>
   Suc 1 = length (queries (ui_run ''pk'' [Change ''A'', TimeoutFired 0, Change ''AB''])) \<and>
   ''pk'' \<noteq> [] \<and> trim ''A'' \<noteq> [] \<and> trim ''AB'' \<noteq> [] \<and> ''AB'' \<noteq> ''A'' \<and>
   suggestions (ui_run ''pk'' [Change ''A'', TimeoutFired 0, Change ''AB'', TimeoutFired 1,
       Responded 1 (Http True (Data (Some [\<lparr>place_name = ''Abuja'', center = (7.49, 9.06), feature_id = ''place.9''\<rparr>]))),
       Responded 0 (Http True (Data (Some [\<lparr>place_name = ''Aachen'', center = (6.08, 50.77), feature_id = ''place.7''\<rparr>])))])
     = [\<lparr>place_name = ''Abuja'', center = (7.49, 9.06), feature_id = ''place.9''\<rparr>]"
proof -
  let ?s = "ui_run ''pk'' [Change ''A'', TimeoutFired 0, Change ''AB'']"
  have c: "cleanupFn ?s = Some 1"
    by (simp add: ui_defs trim_examples Let_def)
  have e: "suggestions ?s = []"
    by (simp add: ui_defs trim_examples Let_def)
  have h: "''pk'' \<noteq> [] \<and> trim ''A'' \<noteq> [] \<and> trim ''AB'' \<noteq> [] \<and> ''AB'' \<noteq> ''A''"
    by (simp add: trim_examples)
  note t = last_issued_wins [of "''pk''" "[Change ''A'', TimeoutFired 0, Change ''AB'']" _ _ "''A''" "''AB''"]
  show ?thesis
    using c e h t [of 0 "Http True (Data (Some [\<lparr>place_name = ''Aachen'', center = (6.08, 50.77), feature_id = ''place.7''\<rparr>]))"
            "Http True (Data (Some [\<lparr>place_name = ''Aachen'', center = (6.08, 50.77), feature_id = ''place.7''\<rparr>]))"
            "[\<lparr>place_name = ''Abuja'', center = (7.49, 9.06), feature_id = ''place.9''\<rparr>]"]
      t [of 1] 
    by simp
qed

lemma commitInput_places: "places (commitInput tok s0 s1) = places s1"
  by (simp add: commitInput_def suggestionsEffect_def suggestionsCleanup_def Let_def split: option.splits)

lemma commitInput_input: "input (commitInput tok s0 s1) = input s1"
  by (simp add: commitInput_def suggestionsEffect_def suggestionsCleanup_def Let_def split: option.splits)

lemma find_no_match: "\<forall>f \<in> set fs. place_name f \<noteq> t \<Longrightarrow> find (\<lambda>f. place_name f = t) fs = None"
  by (simp add: find_None_iff)

lemma no_token_no_suggestions: "ui_inv tok s \<Longrightarrow> suggestions s \<noteq> [] \<Longrightarrow> tok \<noteq> []"
  unfolding ui_inv_def by blast

text \<open>
  C10.  Clicking Add on a non-blank input appends the trimmed input to the place list
  whenever the suggestion list is empty, with or without an access token; and in any
  state the component can reach, if the suggestion list is non-empty and no suggestion's
  \<^verbatim>\<open>place_name\<close> equals the trimmed input, the click changes nothing.
\<close>

theorem add_with_and_without_suggestions:
  "(trim (input s) \<noteq> [] \<and> suggestions s = [] \<longrightarrow>
      places (ui_step tok AddClick s) = places s @ [trim (input s)] \<and>
      input (ui_step tok AddClick s) = []) \<and>
   (trim (input (ui_run tok evs)) \<noteq> [] \<and> suggestions (ui_run tok evs) \<noteq> [] \<and>
    (\<forall>f \<in> set (suggestions (ui_run tok evs)). place_name f \<noteq> trim (input (ui_run tok evs))) \<longrightarrow>
      ui_step tok AddClick (ui_run tok evs) = ui_run tok evs)"
proof (intro conjI impI)
  assume h: "trim (input s) \<noteq> [] \<and> suggestions s = []"
  then show "places (ui_step tok AddClick s) = places s @ [trim (input s)]"
    by (simp add: commitInput_places handleAddPlace_def Let_def)
  from h show "input (ui_step tok AddClick s) = []"
    by (simp add: commitInput_input handleAddPlace_def Let_def)
next
  let ?s = "ui_run tok evs"
  assume h: "trim (input ?s) \<noteq> [] \<and> suggestions ?s \<noteq> [] \<and>
    (\<forall>f \<in> set (suggestions ?s). place_name f \<noteq> trim (input ?s))"
  then have tok: "tok \<noteq> []" using no_token_no_suggestions [OF ui_inv_run] by blast
  from h have "find (\<lambda>f. place_name f = trim (input ?s)) (suggestions ?s) = None"
    by (simp add: find_no_match)
  with h tok have "handleAddPlace tok ?s = ?s"
    by (simp add: handleAddPlace_def Let_def)
  with h show "ui_step tok AddClick ?s = ?s"
    by (simp add: commitInput_def)
qed

theorem add_with_and_without_suggestions_witness:
  "trim (input (ui_run ''pk'' [Change '' Rome ''])) \<noteq> [] \<and>
   suggestions (ui_run ''pk'' [Change '' Rome '']) = [] \<and>
   places (ui_step ''pk'' AddClick (ui_run ''pk'' [Change '' Rome ''])) = [''Rome''] \<and>
   suggestions (ui_run ''pk'' [Change ''Rome'', TimeoutFired 0,
       Responded 0 (Http True (Data (Some [\<lparr>place_name = ''Rome, Italy'', center = (12.48, 41.89), feature_id = ''place.3''\<rparr>])))])
     = [\<lparr>place_name = ''Rome, Italy'', center = (12.48, 41.89), feature_id = ''place.3''\<rparr>] \<and>
   places (ui_step ''pk'' AddClick (ui_run ''pk'' [Change ''Rome'', TimeoutFired 0,
       Responded 0 (Http True (Data (Some [\<lparr>place_name = ''Rome, Italy'', center = (12.48, 41.89), feature_id = ''place.3''\<rparr>])))])) = [] \<and>
   input (ui_step ''pk'' AddClick (ui_run ''pk'' [Change ''Rome'', TimeoutFired 0,
       Responded 0 (Http True (Data (Some [\<lparr>place_name = ''Rome, Italy'', center = (12.48, 41.89), feature_id = ''place.3''\<rparr>])))])) = ''Rome''"
proof -
  let ?a = "ui_run ''pk'' [Change '' Rome '']"
  let ?evs = "[Change ''Rome'', TimeoutFired 0,
       Responded 0 (Http True (Data (Some [\<lparr>place_name = ''Rome, Italy'', center = (12.48, 41.89), feature_id = ''place.3''\<rparr>])))]"
  let ?b = "ui_run ''pk'' ?evs"
  have a1: "input ?a = '' Rome ''" "suggestions ?a = []" "places ?a = []"
    by (simp_all add: ui_defs trim_examples Let_def)
  have b1: "input ?b = ''Rome''" "places ?b = []"
    "suggestions ?b = [\<lparr>place_name = ''Rome, Italy'', center = (12.48, 41.89), feature_id = ''place.3''\<rparr>]"
    by (simp_all add: ui_defs trim_examples Let_def)
  show ?thesis
    using add_with_and_without_suggestions [of ?a "''pk''" ?evs] a1 b1
    by (simp add: trim_examples)
qed

section \<open>Properties of the animation effect\<close>

lemmas anim_defs = run_def app_init_def commit_def requestAnimation_def panelShown_def startDisabled_def
  storeResults_def animationEffect_def placeMarkersEffect_def cleanup_def removeRoute_def removeOwnRoute_def
  removeMarkers_def markerRemove_def markerSetLngLat_def newMarker_def addBlueMarkers_def playSound_def
  onMoveEnd_def animateRoute_def animateSegment_def requestAnimationFrame_def cancelAnimationFrame_def
  updSession_def frame_def onDone_def showAllMarkersAndRoute_def setRouteData_def sliderValue_def extend_def

lemma commit_settled: "settled s \<Longrightarrow> commit s = s"
  by (simp add: commit_def settled_def)

lemma set_requested_again: "animationRequested s \<Longrightarrow> s\<lparr>animationRequested := True\<rparr> = s"
  by simp

lemma few_coords_effect: "length (coords s) < 2 \<Longrightarrow> animationEffect ms s = s\<lparr>effectCleanup := None\<rparr>"
  by (simp add: animationEffect_def)

lemma request_few_coords:
  assumes "settled s" "length (coords s) < 2" "effectCleanup s = None"
  shows "sessions (requestAnimation s) = sessions s"
    "animating (requestAnimation s) = animating s"
    "frames (requestAnimation s) = frames s"
    "moveend (requestAnimation s) = moveend s"
    "markerObjs (requestAnimation s) = markerObjs s"
    "routeLayer (requestAnimation s) = routeLayer s"
    "routeSource (requestAnimation s) = routeSource s"
  using assms
  by (simp_all add: requestAnimation_def commit_def settled_def few_coords_effect Let_def)

text \<open>
  What the guards do achieve.  A click on the start button while \<^verbatim>\<open>animating\<close> is set or
  with fewer than two coordinates leaves the whole state unchanged.  Behind the button,
  the handler \<^verbatim>\<open>setAnimationRequested(true)\<close> with its commit changes nothing either when
  the request flag is already set, and with fewer than two coordinates and no session
  it creates no session, schedules nothing and leaves \<^verbatim>\<open>animating\<close> as it was.
\<close>

lemma invalid_start_is_noop:
  "(animating s \<or> length (coords s) < 2 \<longrightarrow> step StartClick s = s) \<and>
   (settled s \<and> animationRequested s \<longrightarrow> requestAnimation s = s) \<and>
   (settled s \<and> length (coords s) < 2 \<and> effectCleanup s = None \<longrightarrow>
      sessions (requestAnimation s) = sessions s \<and>
      animating (requestAnimation s) = animating s \<and>
      frames (requestAnimation s) = frames s \<and>
      moveend (requestAnimation s) = moveend s)"
proof (intro conjI impI)
  assume "animating s \<or> length (coords s) < 2"
  then show "step StartClick s = s"
    by (auto simp: startDisabled_def)
next
  assume "settled s \<and> animationRequested s"
  then have e: "s\<lparr>animationRequested := True\<rparr> = s" and c: "commit s = s"
    by (simp_all add: commit_settled)
  show "requestAnimation s = s"
    unfolding requestAnimation_def e by (rule c)
next
  assume h: "settled s \<and> length (coords s) < 2 \<and> effectCleanup s = None"
  then show "sessions (requestAnimation s) = sessions s"
    "animating (requestAnimation s) = animating s"
    "frames (requestAnimation s) = frames s"
    "moveend (requestAnimation s) = moveend s"
    by (simp_all add: request_few_coords)
qed

lemma pre_state:
  "run [MapCreated, Resolved [(0, 0), (10, 0)], StartClick, MoveEnd] =
   \<lparr>coords = [(0, 0), (10, 0)],
      totalDistance = fst (distanceAndEta [(0, 0), (10, 0)]),
      estimatedTime = snd (distanceAndEta [(0, 0), (10, 0)]),
      animating = True, markers = [0, 1], animationRequested = True,
      animationSpeed = 1, animationPaused = False, soundEnabled = False,
      currentSegment = 1, isPaused = False, currentFrame = None,
      mapRef = True, routeLayer = Some (2, 3), routeSource = Some [(0, 0)],
      markerObjs =
        [\<lparr>mk_color = Blue, mk_lngLat = (0, 0), mk_added = False\<rparr>,
         \<lparr>mk_color = Blue, mk_lngLat = (10, 0), mk_added = False\<rparr>,
         \<lparr>mk_color = Yellow, mk_lngLat = (0, 0), mk_added = True\<rparr>],
      camera = Some (FlyTo (0, 0) 10), moveend = [],
      sessions =
        [\<lparr>s_coords = [(0, 0), (10, 0)], s_animationSpeed = 1,
            s_soundEnabled = False, animationFrame = Some 1,
            s_marker = 2, routeLayerAdded = True,
            routeSourceAdded = True, cleanupDone = False,
            progressCoords = [(0, 0)], segIndex = 0\<rparr>],
      effectCleanup = Some 0, coordsId = 1,
      effectDeps = (1, True, 1), pausedDep = False,
      frames =
        [(1, \<lparr>f_session = 0, f_start = (0, 0), f_end = (10, 0), f_t = 0,
             f_duration = 3500, f_startTime = 0\<rparr>)],
      nextFrame = 2, now = 0, cues = []\<rparr>"
  by (simp add: anim_defs Let_def)

lemma invalid_start_is_noop_witness:
  "animating (run [MapCreated, Resolved [(0, 0), (10, 0)], StartClick, MoveEnd]) \<and>
   settled (run [MapCreated, Resolved [(0, 0), (10, 0)], StartClick, MoveEnd]) \<and>
   animationRequested (run [MapCreated, Resolved [(0, 0), (10, 0)], StartClick, MoveEnd]) \<and>
   step StartClick (run [MapCreated, Resolved [(0, 0), (10, 0)], StartClick, MoveEnd]) =
     run [MapCreated, Resolved [(0, 0), (10, 0)], StartClick, MoveEnd] \<and>
   requestAnimation (run [MapCreated, Resolved [(0, 0), (10, 0)], StartClick, MoveEnd]) =
     run [MapCreated, Resolved [(0, 0), (10, 0)], StartClick, MoveEnd] \<and>
   settled (run [MapCreated, Resolved [(0, 0)]]) \<and>
   length (coords (run [MapCreated, Resolved [(0, 0)]])) < 2 \<and>
   effectCleanup (run [MapCreated, Resolved [(0, 0)]]) = None \<and>
   step StartClick (run [MapCreated, Resolved [(0, 0)]]) = run [MapCreated, Resolved [(0, 0)]] \<and>
   sessions (requestAnimation (run [MapCreated, Resolved [(0, 0)]])) = [] \<and>
   \<not> animating (requestAnimation (run [MapCreated, Resolved [(0, 0)]]))"
proof -
  let ?a = "run [MapCreated, Resolved [(0, 0), (10, 0)], StartClick, MoveEnd]"
  let ?b = "run [MapCreated, Resolved [(0, 0)]]"
  have a: "animating ?a" "settled ?a" "animationRequested ?a"
    by (simp_all add: pre_state settled_def)
  have b: "settled ?b" "length (coords ?b) < 2" "effectCleanup ?b = None"
    "sessions ?b = []" "\<not> animating ?b"
    by (simp_all add: anim_defs settled_def Let_def)
  show ?thesis
    using a b invalid_start_is_noop [of ?a] invalid_start_is_noop [of ?b]
    by simp
qed

text \<open>
  The state after a session over three coordinates was paused, a frame was polled, the
  coordinate list was replaced by one of two coordinates, and the session started for
  the new list has run to its end: the callback that the first session requested while
  paused is still pending, and neither \<^verbatim>\<open>animating\<close> nor \<^verbatim>\<open>animationRequested\<close> is set.
\<close>

lemma leftover_state:
  "run [MapCreated, Resolved [(0, 0), (10, 0), (10, 10)], StartClick, MoveEnd,
        Tick 1400, Frame 1, PauseClick, Frame 2, Resolved [(0, 0), (10, 0)],
        MoveEnd, Tick 3500, Frame 4] =
   \<lparr>coords = [(0, 0), (10, 0)],
      totalDistance = fst (distanceAndEta [(0, 0), (10, 0)]),
      estimatedTime = snd (distanceAndEta [(0, 0), (10, 0)]),
      animating = False, markers = [7, 8],
      animationRequested = False, animationSpeed = 1, animationPaused = False,
      soundEnabled = False, currentSegment = 1, isPaused = False,
      currentFrame = None, mapRef = True, routeLayer = None, routeSource = None,
      markerObjs =
        [\<lparr>mk_color = Blue, mk_lngLat = (0, 0), mk_added = False\<rparr>,
         \<lparr>mk_color = Blue, mk_lngLat = (10, 0), mk_added = False\<rparr>,
         \<lparr>mk_color = Blue, mk_lngLat = (10, 10), mk_added = False\<rparr>,
         \<lparr>mk_color = Yellow, mk_lngLat = (10 * easeInOutCubic (2 / 5), 0), mk_added = False\<rparr>,
         \<lparr>mk_color = Blue, mk_lngLat = (0, 0), mk_added = True\<rparr>,
         \<lparr>mk_color = Blue, mk_lngLat = (10, 0), mk_added = True\<rparr>,
         \<lparr>mk_color = Yellow, mk_lngLat = (10, 0), mk_added = False\<rparr>,
         \<lparr>mk_color = Blue, mk_lngLat = (0, 0), mk_added = True\<rparr>,
         \<lparr>mk_color = Blue, mk_lngLat = (10, 0), mk_added = True\<rparr>],
      camera = Some (FitBounds (0, 0) (10, 0)), moveend = [],
      sessions =
        [\<lparr>s_coords = [(0, 0), (10, 0), (10, 10)], s_animationSpeed = 1,
            s_soundEnabled = False, animationFrame = Some 2,
            s_marker = 3, routeLayerAdded = True,
            routeSourceAdded = True, cleanupDone = True,
            progressCoords = [(0, 0)], segIndex = 0\<rparr>,
         \<lparr>s_coords = [(0, 0), (10, 0)], s_animationSpeed = 1,
            s_soundEnabled = False, animationFrame = Some 4,
            s_marker = 6, routeLayerAdded = True, routeSourceAdded = True,
            cleanupDone = True, progressCoords = [(0, 0), (10, 0)],
            segIndex = 1\<rparr>],
      effectCleanup = None, coordsId = 2,
      effectDeps = (2, False, 1), pausedDep = False,
      frames =
        [(3, \<lparr>f_session = 0, f_start = (0, 0), f_end = (10, 0), f_t = 2 / 5,
             f_duration = 3500, f_startTime = 0\<rparr>)],
      nextFrame = 5, now = 4900, cues = []\<rparr>"
  by (simp add: anim_defs Let_def)

text \<open>
  C6.  The claim: a start request while a session is already active leaves all state
  unchanged, and no second session is created.  In the state above the first session
  is still active: its frame callback is pending and will move the camera when it
  runs.  The start button is enabled, because it looks at \<^verbatim>\<open>animating\<close> only.  The click
  creates a third session beside the first one; after the next \<^verbatim>\<open>moveend\<close> and the next
  frame, the first and the third session both have a frame callback pending.
\<close>

theorem start_beside_leftover_session:
  "\<not> animating (run [MapCreated, Resolved [(0, 0), (10, 0), (10, 10)], StartClick, MoveEnd,
        Tick 1400, Frame 1, PauseClick, Frame 2, Resolved [(0, 0), (10, 0)],
        MoveEnd, Tick 3500, Frame 4]) \<and>
   \<not> animationRequested (run [MapCreated, Resolved [(0, 0), (10, 0), (10, 10)], StartClick, MoveEnd,
        Tick 1400, Frame 1, PauseClick, Frame 2, Resolved [(0, 0), (10, 0)],
        MoveEnd, Tick 3500, Frame 4]) \<and>
   frameSessions (run [MapCreated, Resolved [(0, 0), (10, 0), (10, 10)], StartClick, MoveEnd,
        Tick 1400, Frame 1, PauseClick, Frame 2, Resolved [(0, 0), (10, 0)],
        MoveEnd, Tick 3500, Frame 4]) = [0] \<and>
   length (sessions (run [MapCreated, Resolved [(0, 0), (10, 0), (10, 10)], StartClick, MoveEnd,
        Tick 1400, Frame 1, PauseClick, Frame 2, Resolved [(0, 0), (10, 0)],
        MoveEnd, Tick 3500, Frame 4])) = 2 \<and>
   length (sessions (step StartClick (run [MapCreated, Resolved [(0, 0), (10, 0), (10, 10)],
        StartClick, MoveEnd, Tick 1400, Frame 1, PauseClick, Frame 2, Resolved [(0, 0), (10, 0)],
        MoveEnd, Tick 3500, Frame 4]))) = 3 \<and>
   animating (step StartClick (run [MapCreated, Resolved [(0, 0), (10, 0), (10, 10)],
        StartClick, MoveEnd, Tick 1400, Frame 1, PauseClick, Frame 2, Resolved [(0, 0), (10, 0)],
        MoveEnd, Tick 3500, Frame 4])) \<and>
   effectCleanup (step StartClick (run [MapCreated, Resolved [(0, 0), (10, 0), (10, 10)],
        StartClick, MoveEnd, Tick 1400, Frame 1, PauseClick, Frame 2, Resolved [(0, 0), (10, 0)],
        MoveEnd, Tick 3500, Frame 4])) = Some 2 \<and>
   moveend (step StartClick (run [MapCreated, Resolved [(0, 0), (10, 0), (10, 10)],
        StartClick, MoveEnd, Tick 1400, Frame 1, PauseClick, Frame 2, Resolved [(0, 0), (10, 0)],
        MoveEnd, Tick 3500, Frame 4])) = [2] \<and>
   frameSessions (step StartClick (run [MapCreated, Resolved [(0, 0), (10, 0), (10, 10)],
        StartClick, MoveEnd, Tick 1400, Frame 1, PauseClick, Frame 2, Resolved [(0, 0), (10, 0)],
        MoveEnd, Tick 3500, Frame 4])) = [0] \<and>
   frameSessions (step (Frame 3) (step MoveEnd (step StartClick
      (run [MapCreated, Resolved [(0, 0), (10, 0), (10, 10)],
        StartClick, MoveEnd, Tick 1400, Frame 1, PauseClick, Frame 2, Resolved [(0, 0), (10, 0)],
        MoveEnd, Tick 3500, Frame 4])))) = [2, 0]"
  unfolding leftover_state by (simp add: anim_defs frameSessions_def Let_def)




lemma ok_core:
  "sessions_ok s \<Longrightarrow> sessions s' = sessions s \<Longrightarrow> frames s' = frames s \<Longrightarrow>
   moveend s' = moveend s \<Longrightarrow> animationSpeed s' = animationSpeed s \<Longrightarrow> sessions_ok s'"
  by (simp add: sessions_ok_def frameSessions_def)




lemma core_playSound [simp]:
  "sessions (playSound e c s) = sessions s" "frames (playSound e c s) = frames s"
  "moveend (playSound e c s) = moveend s" "animationSpeed (playSound e c s) = animationSpeed s"
  by (simp_all add: playSound_def)

lemma core_markerRemove [simp]:
  "sessions (markerRemove m s) = sessions s" "frames (markerRemove m s) = frames s"
  "moveend (markerRemove m s) = moveend s" "animationSpeed (markerRemove m s) = animationSpeed s"
  by (simp_all add: markerRemove_def)

lemma core_markerSetLngLat [simp]:
  "sessions (markerSetLngLat m p s) = sessions s" "frames (markerSetLngLat m p s) = frames s"
  "moveend (markerSetLngLat m p s) = moveend s"
  "animationSpeed (markerSetLngLat m p s) = animationSpeed s"
  by (simp_all add: markerSetLngLat_def)

lemma core_removeMarkers [simp]:
  "sessions (removeMarkers ms s) = sessions s" "frames (removeMarkers ms s) = frames s"
  "moveend (removeMarkers ms s) = moveend s" "animationSpeed (removeMarkers ms s) = animationSpeed s"
  unfolding removeMarkers_def by (induction ms arbitrary: s; simp)+

lemma core_newMarker [simp]:
  "sessions (snd (newMarker c p s)) = sessions s" "frames (snd (newMarker c p s)) = frames s"
  "moveend (snd (newMarker c p s)) = moveend s"
  "animationSpeed (snd (newMarker c p s)) = animationSpeed s"
  by (simp_all add: newMarker_def)

lemma core_addBlueMarkers [simp]:
  "sessions (snd (addBlueMarkers cs s)) = sessions s" "frames (snd (addBlueMarkers cs s)) = frames s"
  "moveend (snd (addBlueMarkers cs s)) = moveend s"
  "animationSpeed (snd (addBlueMarkers cs s)) = animationSpeed s"
  by (simp_all add: addBlueMarkers_def)

lemma core_removeRoute [simp]:
  "sessions (removeRoute s) = sessions s" "frames (removeRoute s) = frames s"
  "moveend (removeRoute s) = moveend s" "animationSpeed (removeRoute s) = animationSpeed s"
  by (simp_all add: removeRoute_def Let_def)

lemma core_removeOwnRoute [simp]:
  "sessions (removeOwnRoute ss s) = sessions s" "frames (removeOwnRoute ss s) = frames s"
  "moveend (removeOwnRoute ss s) = moveend s" "animationSpeed (removeOwnRoute ss s) = animationSpeed s"
  by (simp_all add: removeOwnRoute_def Let_def)

lemma core_setRouteData [simp]:
  "sessions (setRouteData cs s) = sessions s" "frames (setRouteData cs s) = frames s"
  "moveend (setRouteData cs s) = moveend s" "animationSpeed (setRouteData cs s) = animationSpeed s"
  by (simp_all add: setRouteData_def)

lemma core_showAll [simp]:
  "sessions (showAllMarkersAndRoute sid s) = sessions s"
  "frames (showAllMarkersAndRoute sid s) = frames s"
  "moveend (showAllMarkersAndRoute sid s) = moveend s"
  "animationSpeed (showAllMarkersAndRoute sid s) = animationSpeed s"
  by (simp_all add: showAllMarkersAndRoute_def Let_def split_beta)

lemma core_placeMarkers [simp]:
  "sessions (placeMarkersEffect ms s) = sessions s"
  "frames (placeMarkersEffect ms s) = frames s"
  "moveend (placeMarkersEffect ms s) = moveend s"
  "animationSpeed (placeMarkersEffect ms s) = animationSpeed s"
  by (simp_all add: placeMarkersEffect_def Let_def split_beta)

lemma ok_simps [simp]:
  "sessions_ok (playSound e c s) = sessions_ok s"
  "sessions_ok (markerRemove m s) = sessions_ok s"
  "sessions_ok (markerSetLngLat m p s) = sessions_ok s"
  "sessions_ok (removeMarkers ms s) = sessions_ok s"
  "sessions_ok (snd (newMarker col p s)) = sessions_ok s"
  "sessions_ok (snd (addBlueMarkers cs s)) = sessions_ok s"
  "sessions_ok (removeRoute s) = sessions_ok s"
  "sessions_ok (removeOwnRoute ss s) = sessions_ok s"
  "sessions_ok (setRouteData cs s) = sessions_ok s"
  "sessions_ok (showAllMarkersAndRoute sid s) = sessions_ok s"
  "sessions_ok (placeMarkersEffect ms s) = sessions_ok s"
  by (simp_all add: sessions_ok_def frameSessions_def)




lemma ok_currentSegment [simp]: "sessions_ok (s\<lparr>currentSegment := n\<rparr>) = sessions_ok s"
  by (simp add: sessions_ok_def frameSessions_def)





lemma ok_flags [simp]: "sessions_ok (s\<lparr>animating := a, animationRequested := r\<rparr>) = sessions_ok s"
  by (simp add: sessions_ok_def frameSessions_def)

lemma ok_camera [simp]: "sessions_ok (s\<lparr>camera := c\<rparr>) = sessions_ok s"
  by (simp add: sessions_ok_def frameSessions_def)

lemma ok_currentFrame [simp]: "sessions_ok (s\<lparr>currentFrame := c\<rparr>) = sessions_ok s"
  by (simp add: sessions_ok_def frameSessions_def)






lemma animateRoute_moveend_commute:
  "(animateRoute sid s)\<lparr>moveend := l\<rparr> = animateRoute sid (s\<lparr>moveend := l\<rparr>)"
  by (simp add: animateRoute_def animateSegment_def requestAnimationFrame_def updSession_def Let_def)

lemma animateRoute_moveend [simp]: "moveend (animateRoute sid s) = moveend s"
  by (simp add: animateRoute_def animateSegment_def requestAnimationFrame_def updSession_def Let_def)


lemma ok_route [simp]:
  "sessions_ok (s\<lparr>routeSource := a\<rparr>) = sessions_ok s"
  "sessions_ok (s\<lparr>routeLayer := b\<rparr>) = sessions_ok s"
  by (simp_all add: sessions_ok_def frameSessions_def)

lemma onMoveEnd_alt:
  "onMoveEnd sid s =
     animateRoute sid
       ((updSession sid (\<lambda>x. x\<lparr>routeLayerAdded := True\<rparr>)
          ((updSession sid (\<lambda>x. x\<lparr>routeSourceAdded := True\<rparr>)
             ((removeRoute s)\<lparr>routeSource := Some (progressCoords (sessions (removeRoute s) ! sid))\<rparr>))
           \<lparr>routeLayer := Some (2, 3)\<rparr>))
        \<lparr>moveend := removeAll sid (moveend s)\<rparr>)"
  by (simp add: onMoveEnd_def Let_def animateRoute_moveend_commute updSession_def)






lemma ok_misc [simp]:
  "sessions_ok (s\<lparr>effectDeps := d\<rparr>) = sessions_ok s"
  "sessions_ok (s\<lparr>isPaused := p, pausedDep := q\<rparr>) = sessions_ok s"
  "sessions_ok (s\<lparr>animationPaused := p\<rparr>) = sessions_ok s"
  "sessions_ok (s\<lparr>animationRequested := r\<rparr>) = sessions_ok s"
  "sessions_ok (s\<lparr>coordsId := n\<rparr>) = sessions_ok s"
  "sessions_ok (s\<lparr>mapRef := b\<rparr>) = sessions_ok s"
  "sessions_ok (s\<lparr>soundEnabled := b\<rparr>) = sessions_ok s"
  "sessions_ok (s\<lparr>now := t\<rparr>) = sessions_ok s"
  "sessions_ok (storeResults cs s) = sessions_ok s"
  by (simp_all add: sessions_ok_def frameSessions_def storeResults_def)








subsection \<open>Invalidation, speed, timing and completion\<close>

lemma removeMarkers_eq: "removeMarkers ms s = s\<lparr>markerObjs := detach ms (markerObjs s)\<rparr>"
  unfolding removeMarkers_def detach_def
  by (induction ms arbitrary: s) (simp_all add: markerRemove_def)

lemma length_detach [simp]: "length (detach ms objs) = length objs"
  unfolding detach_def by (induction ms arbitrary: objs) simp_all

lemma detach_keeps_removed:
  "m < length objs \<Longrightarrow> \<not> mk_added (objs ! m) \<Longrightarrow> \<not> mk_added (detach ms objs ! m)"
  unfolding detach_def
proof (induction ms arbitrary: objs)
  case Nil
  then show ?case by simp
next
  case (Cons k ms)
  have "\<not> mk_added (objs[k := (objs ! k)\<lparr>mk_added := False\<rparr>] ! m)"
    using Cons.prems by (cases "k < length objs") (auto simp: nth_list_update)
  with Cons.prems show ?case by (simp add: Cons.IH)
qed

lemma removeRoute_eq: "removeRoute s = s\<lparr>routeLayer := None, routeSource := None\<rparr>"
  by (cases "routeLayer s"; cases "routeSource s") (simp_all add: removeRoute_def Let_def)

lemma removeOwnRoute_eq:
  "routeLayerAdded ss \<Longrightarrow> routeSourceAdded ss \<Longrightarrow>
   removeOwnRoute ss s = s\<lparr>routeLayer := None, routeSource := None\<rparr>"
  by (cases "routeLayer s"; cases "routeSource s") (simp_all add: removeOwnRoute_def Let_def)

lemma gone_detach: "gone m s \<Longrightarrow> markerObjs s' = detach ms (markerObjs s) @ xs \<Longrightarrow> gone m s'"
  by (simp add: gone_def nth_append detach_keeps_removed)

lemma placeMarkersEffect_eq:
  "placeMarkersEffect ms s =
     (if \<not> mapRef s \<or> length (coords s) = 0 then s
      else s\<lparr>markers := [length (markerObjs s) ..< length (markerObjs s) + length (coords s)],
             markerObjs := detach ms (markerObjs s) @
               map (\<lambda>c. \<lparr>mk_color = Blue, mk_lngLat = c, mk_added = True\<rparr>) (coords s),
             camera := Some (FlyTo (last (coords s)) 10)\<rparr>)"
  by (simp add: placeMarkersEffect_def Let_def split_beta addBlueMarkers_def removeMarkers_eq)

lemma gone_placeMarkers: "gone m s \<Longrightarrow> gone m (placeMarkersEffect ms s)"
  by (auto simp: placeMarkersEffect_eq elim: gone_detach)

lemma animationEffect_eq:
  "animationEffect ms s =
     (if \<not> animationRequested s \<or> \<not> mapRef s \<or> length (coords s) < 2
      then s\<lparr>effectCleanup := None\<rparr>
      else s\<lparr>animationPaused := False, currentSegment := 0, isPaused := False,
             currentFrame := None, routeLayer := None, routeSource := None,
             markerObjs := detach ms (markerObjs s) @
               [\<lparr>mk_color = Yellow, mk_lngLat = coords s ! 0, mk_added = True\<rparr>],
             sessions := sessions s @
               [\<lparr>s_coords = coords s, s_animationSpeed = animationSpeed s,
                 s_soundEnabled = soundEnabled s, animationFrame = None,
                 s_marker = length (markerObjs s),
                 routeLayerAdded = False, routeSourceAdded = False, cleanupDone = False,
                 progressCoords = [coords s ! 0], segIndex = 0\<rparr>],
             cues := (if soundEnabled s then cues s @ [CueStart] else cues s),
             animating := True, camera := Some (FlyTo (coords s ! 0) 10),
             moveend := moveend s @ [length (sessions s)],
             effectCleanup := Some (length (sessions s))\<rparr>)"
  by (simp add: animationEffect_def Let_def split_beta newMarker_def playSound_def
        removeMarkers_eq removeRoute_eq)

lemma gone_animationEffect: "gone m s \<Longrightarrow> gone m (animationEffect ms s)"
  by (auto simp: animationEffect_eq gone_def nth_append detach_keeps_removed)

lemma commit_changed:
  assumes "coordsId s \<noteq> fst (effectDeps s)" "effectCleanup s = Some sid"
  shows "commit s =
     (let s3 = (animationEffect (markers s) (placeMarkersEffect (markers s) (cleanup sid s)))
                 \<lparr>effectDeps := (coordsId s, animationRequested s, animationSpeed s)\<rparr>
      in if animationPaused s3 \<noteq> pausedDep s3
         then s3\<lparr>isPaused := animationPaused s3, pausedDep := animationPaused s3\<rparr>
         else s3)"
proof -
  have "(coordsId s, animationRequested s, animationSpeed s) \<noteq> effectDeps s"
    using assms(1) by (metis fst_conv)
  then show ?thesis using assms by (simp add: commit_def Let_def)
qed

lemma animationSpeed_cleanup [simp]: "animationSpeed (cleanup sid s) = animationSpeed s"
  by (simp add: cleanup_def Let_def updSession_def cancelAnimationFrame_def split: option.splits)

lemma animationSpeed_animationEffect [simp]: "animationSpeed (animationEffect ms s) = animationSpeed s"
  by (simp add: animationEffect_eq)

lemma animationSpeed_commit [simp]: "animationSpeed (commit s) = animationSpeed s"
  by (simp add: commit_def Let_def split: option.splits)

text \<open>
  The raw progress of a frame that is not paused and does not finish its segment.
\<close>

lemma frame_raw_t:
  assumes "map_of (frames s) fid = Some cb" "\<not> isPaused s"
    "(now s - f_startTime cb) / f_duration cb < 1"
  shows "frames (frame fid s) =
           filter (\<lambda>e. fst e \<noteq> fid) (frames s) @
             [(nextFrame s, cb\<lparr>f_t := (now s - f_startTime cb) / f_duration cb\<rparr>)]"
  using assms
  by (simp add: frame_def Let_def split_beta requestAnimationFrame_def updSession_def
        setRouteData_def markerSetLngLat_def)










text \<open>
  C1.  The claim: \<open>t\<close> is computed from the elapsed running time without the time spent
  paused.  A session at speed 1 starts its first segment at time 0.  The frame at
  time 1400 computes \<open>t = 0.4\<close>.  The session is paused, 2000 ms pass (a frame polled
  meanwhile changes nothing), it is resumed, and the next frame comes 16 ms later: that
  frame computes \<open>t = 3416 / 3500 = 0.976\<close>, not \<open>0.4 + 16 / 3500\<close>.  \<^verbatim>\<open>frame\<close> always
  computes \<open>(now - startTime) / duration\<close> from the \<^verbatim>\<open>startTime\<close> taken when the segment
  began.
\<close>

theorem resume_includes_paused_time:
  "frames (run [MapCreated, Resolved [(0, 0), (10, 0)], StartClick, MoveEnd, Tick 1400, Frame 1]) =
     [(2, \<lparr>f_session = 0, f_start = (0, 0), f_end = (10, 0), f_t = 2 / 5,
           f_duration = 3500, f_startTime = 0\<rparr>)] \<and>
   frames (run [MapCreated, Resolved [(0, 0), (10, 0)], StartClick, MoveEnd, Tick 1400, Frame 1,
       PauseClick, Tick 2000, Frame 2, PauseClick, Tick 16, Frame 3]) =
     [(4, \<lparr>f_session = 0, f_start = (0, 0), f_end = (10, 0), f_t = 122 / 125,
           f_duration = 3500, f_startTime = 0\<rparr>)]"
  by (simp add: anim_defs Let_def)

subsection \<open>The states between events\<close>

text \<open>
  Every commit leaves the dependency lists up to date, so every state reached by a
  sequence of events is settled: the hypothesis of the theorems above that ask for it
  holds wherever the component can be.
\<close>

lemma cleanup_deps [simp]:
  "coordsId (cleanup sid s) = coordsId s"
  "animationRequested (cleanup sid s) = animationRequested s"
  "animationPaused (cleanup sid s) = animationPaused s"
  "pausedDep (cleanup sid s) = pausedDep s"
  "effectDeps (cleanup sid s) = effectDeps s"
  "mapRef (cleanup sid s) = mapRef s"
  "coords (cleanup sid s) = coords s"
  by (simp_all add: cleanup_def Let_def updSession_def cancelAnimationFrame_def markerRemove_def
        removeOwnRoute_def split: option.splits)

lemma settled_commit: "settled (commit s)"
  by (simp add: settled_def commit_def Let_def placeMarkersEffect_eq animationEffect_eq
        split: option.splits)

lemma settled_step: "settled s \<Longrightarrow> settled (step e s)"
  by (cases e) (simp_all add: settled_commit requestAnimation_def, simp_all add: settled_def)

lemma settled_run: "settled (run evs)"
proof -
  have "settled s \<Longrightarrow> settled (foldl (\<lambda>s e. step e s) s evs)" for s
    by (induction evs arbitrary: s) (simp_all add: settled_step)
  then show ?thesis by (simp add: run_def app_init_def settled_def)
qed

text \<open>
  The same holds of the session whose cleanup React holds: no handler touches what
  \<open>current_ok\<close> reads without also changing a dependency of the animation effect, and a
  run of the effect either starts a fresh session or holds no cleanup.
\<close>

lemma keeps_refl: "keeps s s"
  by (simp add: keeps_def)

lemma keeps_trans: "keeps a b \<Longrightarrow> keeps b c \<Longrightarrow> keeps a c"
  by (simp add: keeps_def)

lemma keeps_if: "keeps s a \<Longrightarrow> keeps s b \<Longrightarrow> keeps s (if c then a else b)"
  by simp

lemma update_keeps_cleanupDone:
  assumes "cleanupDone x = cleanupDone (xs ! i)"
  shows "cleanupDone (xs[i := x] ! j) = cleanupDone (xs ! j)"
proof (cases "i < length xs")
  case True
  with assms show ?thesis by (cases "i = j") simp_all
next
  case False
  then show ?thesis by (simp add: list_update_beyond not_less)
qed

lemma update_keeps_marker:
  assumes "s_marker x = s_marker (xs ! i)"
  shows "s_marker (xs[i := x] ! j) = s_marker (xs ! j)"
proof (cases "i < length xs")
  case True
  with assms show ?thesis by (cases "i = j") simp_all
next
  case False
  then show ?thesis by (simp add: list_update_beyond not_less)
qed

lemmas update_keeps_field = update_keeps_cleanupDone update_keeps_marker

lemma keeps_updSession:
  "(\<And>x. cleanupDone (g x) = cleanupDone x \<and> s_marker (g x) = s_marker x) \<Longrightarrow>
   keeps s (updSession sid g s)"
  by (simp add: keeps_def updSession_def update_keeps_field)

lemma keeps_prims:
  "keeps s (snd (requestAnimationFrame cb s))"
  "keeps s (markerSetLngLat m p s)"
  "keeps s (markerRemove m s)"
  "keeps s (setRouteData d s)"
  "keeps s (playSound e c s)"
  "keeps s (removeRoute s)"
  by (simp_all add: keeps_def requestAnimationFrame_def markerSetLngLat_def markerRemove_def
        setRouteData_def playSound_def removeRoute_eq)

lemma keeps_animateRoute: "keeps s (animateRoute sid s)"
  by (simp add: keeps_def animateRoute_def animateSegment_def requestAnimationFrame_def
        updSession_def Let_def update_keeps_field)

lemma keeps_showAll: "keeps s (showAllMarkersAndRoute sid s)"
  by (simp add: keeps_def showAllMarkersAndRoute_def Let_def split_beta addBlueMarkers_def
        markerRemove_def removeOwnRoute_def)

lemma keeps_onDone: "keeps s (onDone sid s)"
proof -
  let ?s1 = "updSession sid (\<lambda>x. x\<lparr>segIndex := segIndex x + 1\<rparr>) s"
  have 1: "keeps s ?s1" by (rule keeps_updSession) simp
  have 2: "keeps ?s1 (animateRoute sid ?s1)" by (rule keeps_animateRoute)
  have 3: "keeps ?s1 (showAllMarkersAndRoute sid (playSound e CueComplete
              (?s1\<lparr>animating := False, animationRequested := False\<rparr>)))" for e
    by (rule keeps_trans [OF _ keeps_showAll]) (simp add: keeps_def playSound_def)
  show ?thesis
    unfolding onDone_def Let_def
    by (rule keeps_if [OF keeps_trans [OF 1 2] keeps_trans [OF 1 3]])
qed

lemma keeps_frame_paused:
  "keeps s ((snd (requestAnimationFrame cb (s\<lparr>frames := F\<rparr>)))\<lparr>currentFrame := c\<rparr>)"
  by (simp add: keeps_def requestAnimationFrame_def)

lemma keeps_frame_moved:
  "keeps s ((setRouteData d (markerSetLngLat m p (s\<lparr>frames := F\<rparr>)))\<lparr>camera := cam\<rparr>)"
  by (simp add: keeps_def setRouteData_def markerSetLngLat_def)

lemma keeps_frame_continue:
  assumes "keeps s s3"
  shows "keeps s (updSession sid (\<lambda>x. x\<lparr>animationFrame := Some (fst (requestAnimationFrame c s3))\<rparr>)
                   (snd (requestAnimationFrame c s3)))"
  by (rule keeps_trans [OF keeps_trans [OF assms keeps_prims(1)] keeps_updSession]) simp

lemma keeps_frame_last:
  assumes "keeps s s3"
  shows "keeps s (onDone sid (playSound e c (setRouteData d (markerSetLngLat mk q
              (updSession sid (\<lambda>x. x\<lparr>progressCoords := progressCoords x @ [z]\<rparr>) s3)))))"
proof -
  have 1: "keeps s3 (updSession sid (\<lambda>x. x\<lparr>progressCoords := progressCoords x @ [z]\<rparr>) s3)"
    by (rule keeps_updSession) simp
  note 2 = keeps_trans [OF keeps_trans [OF assms 1] keeps_prims(2)]
  note 3 = keeps_trans [OF 2 keeps_prims(4)]
  note 4 = keeps_trans [OF 3 keeps_prims(5)]
  show ?thesis by (rule keeps_trans [OF 4 keeps_onDone])
qed

lemma keeps_frame: "keeps s (frame fid s)"
proof (cases "map_of (frames s) fid")
  case None
  then show ?thesis by (simp add: frame_def keeps_refl)
next
  case (Some cb)
  show ?thesis
    unfolding frame_def Some option.case Let_def split_beta
    apply (rule keeps_if)
     apply (rule keeps_frame_paused)
    apply (rule keeps_if)
     apply (rule keeps_frame_continue [OF keeps_frame_moved])
    apply (rule keeps_frame_last [OF keeps_frame_moved])
    done
qed

lemma keeps_onMoveEnd: "keeps s (onMoveEnd sid s)"
proof -
  let ?s2 = "(removeRoute s)\<lparr>routeSource := Some (progressCoords (sessions (removeRoute s) ! sid))\<rparr>"
  let ?s3 = "updSession sid (\<lambda>x. x\<lparr>routeSourceAdded := True\<rparr>) ?s2"
  let ?s5 = "updSession sid (\<lambda>x. x\<lparr>routeLayerAdded := True\<rparr>) (?s3\<lparr>routeLayer := Some (2, 3)\<rparr>)"
  let ?s6 = "?s5\<lparr>moveend := removeAll sid (moveend s)\<rparr>"
  have 2: "keeps s ?s2" by (simp add: keeps_def removeRoute_eq)
  have 3: "keeps ?s2 ?s3" by (rule keeps_updSession) simp
  have 4: "keeps ?s3 (?s3\<lparr>routeLayer := Some (2, 3)\<rparr>)" by (simp add: keeps_def)
  have 5: "keeps (?s3\<lparr>routeLayer := Some (2, 3)\<rparr>) ?s5" by (rule keeps_updSession) simp
  have 6: "keeps ?s5 ?s6" by (simp add: keeps_def)
  note a = keeps_trans [OF keeps_trans [OF keeps_trans [OF keeps_trans [OF 2 3] 4] 5] 6]
  show ?thesis
    unfolding onMoveEnd_alt by (rule keeps_trans [OF a keeps_animateRoute])
qed

lemma keeps_fold_onMoveEnd: "keeps s (fold onMoveEnd l s)"
proof (induction l arbitrary: s)
  case Nil
  show ?case by (simp add: keeps_refl)
next
  case (Cons a l)
  show ?case using keeps_trans [OF keeps_onMoveEnd Cons] by simp
qed

lemma current_ok_animationEffect: "current_ok (animationEffect ms s)"
  by (simp add: current_ok_def animationEffect_eq nth_append)

lemma current_ok_fields [simp]:
  "current_ok (s\<lparr>effectDeps := d\<rparr>) = current_ok s"
  "current_ok (s\<lparr>isPaused := p, pausedDep := q\<rparr>) = current_ok s"
  by (simp_all add: current_ok_def split: option.splits)

lemma current_ok_commit:
  assumes "(coordsId s, animationRequested s, animationSpeed s) = effectDeps s \<Longrightarrow> current_ok s"
  shows "current_ok (commit s)"
proof (cases "(coordsId s, animationRequested s, animationSpeed s) = effectDeps s")
  case True
  have "commit s = (if animationPaused s \<noteq> pausedDep s
                    then s\<lparr>isPaused := animationPaused s, pausedDep := animationPaused s\<rparr> else s)"
    by (simp add: commit_def Let_def True [symmetric])
  then show ?thesis using assms [OF True] by simp
next
  case False
  then have ac: "((coordsId s, animationRequested s, animationSpeed s) \<noteq> effectDeps s) = True"
    by simp
  show ?thesis
    unfolding commit_def Let_def ac if_True
    by (simp add: current_ok_animationEffect)
qed

lemma current_ok_handler:
  assumes ok: "current_ok s" and st: "settled s" and k: "keeps s s0"
  shows "current_ok (commit s0)"
proof (rule current_ok_commit)
  assume d: "(coordsId s0, animationRequested s0, animationSpeed s0) = effectDeps s0"
  have "effectDeps s0 = (coordsId s, animationRequested s, animationSpeed s)"
    using k st by (simp add: keeps_def settled_def)
  with d have "(coordsId s0, animationRequested s0, animationSpeed s0) =
      (coordsId s, animationRequested s, animationSpeed s)" by (rule trans)
  then have r: "animationRequested s0 = animationRequested s" by simp
  show "current_ok s0"
  proof (cases "effectCleanup s")
    case None
    then show ?thesis using k by (simp add: current_ok_def keeps_def)
  next
    case (Some sid)
    then show ?thesis
      using ok k r by (simp add: current_ok_def keeps_def)
  qed
qed

lemma current_ok_step: "current_ok s \<Longrightarrow> settled s \<Longrightarrow> current_ok (step e s)"
proof (cases e)
  case MapCreated
  assume "current_ok s"
  then show ?thesis by (simp add: MapCreated current_ok_def split: option.splits)
next
  case (Resolved cs)
  assume a: "current_ok s" "settled s"
  show ?thesis
    unfolding Resolved step.simps
    by (rule current_ok_handler [OF a]) (simp add: keeps_def storeResults_def)
next
  case StartClick
  assume a: "current_ok s" "settled s"
  have "current_ok (commit (s\<lparr>animationRequested := True\<rparr>))"
    by (rule current_ok_handler [OF a]) (simp add: keeps_def)
  with a show ?thesis by (simp add: StartClick requestAnimation_def)
next
  case PauseClick
  assume a: "current_ok s" "settled s"
  have "current_ok (commit (s\<lparr>animationPaused := \<not> animationPaused s\<rparr>))"
    by (rule current_ok_handler [OF a]) (simp add: keeps_def)
  with a show ?thesis by (simp add: PauseClick)
next
  case (SpeedChange k)
  assume a: "current_ok s" "settled s"
  have "current_ok (commit (s\<lparr>animationSpeed := sliderValue k\<rparr>))"
    by (rule current_ok_handler [OF a]) (simp add: keeps_def)
  with a show ?thesis by (simp add: SpeedChange)
next
  case SoundClick
  assume "current_ok s"
  then show ?thesis by (simp add: SoundClick current_ok_def split: option.splits)
next
  case MoveEnd
  assume a: "current_ok s" "settled s"
  show ?thesis
    unfolding MoveEnd step.simps by (rule current_ok_handler [OF a keeps_fold_onMoveEnd])
next
  case (Frame fid)
  assume a: "current_ok s" "settled s"
  show ?thesis
    unfolding Frame step.simps by (rule current_ok_handler [OF a keeps_frame])
next
  case (Tick d)
  assume "current_ok s"
  then show ?thesis by (simp add: Tick current_ok_def split: option.splits)
qed

lemma current_ok_run: "current_ok (run evs)"
proof -
  have "current_ok s \<Longrightarrow> settled s \<Longrightarrow> current_ok (foldl (\<lambda>s e. step e s) s evs)" for s
    by (induction evs arbitrary: s) (simp_all add: current_ok_step settled_step)
  then show ?thesis by (simp add: run_def app_init_def current_ok_def settled_def)
qed

subsection \<open>A change of the coordinate list during a session\<close>

lemma cleanup_fields:
  assumes "\<not> cleanupDone (sessions s ! sid)"
  shows "sessions (cleanup sid s) = (sessions s)[sid := (sessions s ! sid)\<lparr>cleanupDone := True\<rparr>]"
    "markerObjs (cleanup sid s) = detach [s_marker (sessions s ! sid)] (markerObjs s)"
    "moveend (cleanup sid s) = moveend s"
    "markers (cleanup sid s) = markers s"
    "soundEnabled (cleanup sid s) = soundEnabled s"
  using assms
  by (simp_all add: cleanup_def Let_def updSession_def cancelAnimationFrame_def markerRemove_def
        removeOwnRoute_def detach_def split: option.splits)

lemma cleanup_frames:
  assumes "\<not> cleanupDone (sessions s ! sid)"
  shows "frames (cleanup sid s) =
     (case animationFrame (sessions s ! sid) of
        None \<Rightarrow> frames s
      | Some fid \<Rightarrow> filter (\<lambda>e. fst e \<noteq> fid) (frames s))"
  using assms
  by (simp add: cleanup_def Let_def updSession_def cancelAnimationFrame_def markerRemove_def
        removeOwnRoute_def split: option.splits)

lemma cleanup_routeLayer:
  assumes "\<not> cleanupDone (sessions s ! sid)" "routeLayerAdded (sessions s ! sid)"
  shows "routeLayer (cleanup sid s) = None"
  using assms
  by (cases "routeLayer s"; cases "routeSource s")
     (simp_all add: cleanup_def Let_def updSession_def cancelAnimationFrame_def markerRemove_def
        removeOwnRoute_def split: option.splits)

lemma cleanup_routeSource:
  assumes "\<not> cleanupDone (sessions s ! sid)" "routeSourceAdded (sessions s ! sid)"
  shows "routeSource (cleanup sid s) = None"
  using assms
  by (cases "routeLayer s"; cases "routeSource s")
     (simp_all add: cleanup_def Let_def updSession_def cancelAnimationFrame_def markerRemove_def
        removeOwnRoute_def split: option.splits)

text \<open>
  C5 as stated ends in Idle.  A session over two coordinates is running; the coordinate
  list is replaced by one of three coordinates.  Afterwards \<^verbatim>\<open>animating\<close> and
  \<^verbatim>\<open>animationRequested\<close> are still set and a second session waits for \<^verbatim>\<open>moveend\<close>.
\<close>

theorem invalidation_restarts_counterexample:
  "animating (step (Resolved [(0, 0), (10, 0), (20, 0)])
      (run [MapCreated, Resolved [(0, 0), (10, 0)], StartClick, MoveEnd])) \<and>
   animationRequested (step (Resolved [(0, 0), (10, 0), (20, 0)])
      (run [MapCreated, Resolved [(0, 0), (10, 0)], StartClick, MoveEnd])) \<and>
   moveend (step (Resolved [(0, 0), (10, 0), (20, 0)])
      (run [MapCreated, Resolved [(0, 0), (10, 0)], StartClick, MoveEnd])) = [1] \<and>
   length (sessions (step (Resolved [(0, 0), (10, 0), (20, 0)])
      (run [MapCreated, Resolved [(0, 0), (10, 0)], StartClick, MoveEnd]))) = 2"
  unfolding pre_state by (simp add: anim_defs Let_def)

text \<open>
  C5, as amended.  Let the coordinate list change in a state the component can reach in
  which React holds the cleanup of a session: the session waits for \<^verbatim>\<open>moveend\<close>, is
  running, or is paused.  Then the cleanup of that session runs: it sets its
  \<^verbatim>\<open>cleanupDone\<close>, the frame callback that the session's variable \<^verbatim>\<open>animationFrame\<close> names is
  no longer pending and no callback is added, the animated marker is off the map, and
  the route layer and the route source are removed if the session had added them.  If
  the new list has at least two coordinates, the request flag is still set and a new
  session over the new list starts at once: no route layer or source is left,
  \<^verbatim>\<open>animating\<close> is set, the pause is cleared, the segment counter is 0, and the new session
  waits for \<^verbatim>\<open>moveend\<close> with its progress at the first coordinate and no frame requested.
  If the new list is shorter, no session is started and React holds no cleanup.
\<close>

theorem invalidation_tears_down_and_restarts:
  assumes r: "s = run evs" and cur: "effectCleanup s = Some sid"
    and n: "s' = step (Resolved cs) s"
  shows "cleanupDone (sessions s' ! sid) \<and>
         (\<forall>e \<in> set (frames s'). animationFrame (sessions s ! sid) \<noteq> Some (fst e)) \<and>
         set (frames s') \<subseteq> set (frames s) \<and>
         s_marker (sessions s ! sid) < length (markerObjs s') \<and>
         \<not> mk_added (markerObjs s' ! s_marker (sessions s ! sid)) \<and>
         (routeLayerAdded (sessions s ! sid) \<longrightarrow> routeLayer s' = None) \<and>
         (routeSourceAdded (sessions s ! sid) \<longrightarrow> routeSource s' = None) \<and>
         (2 \<le> length cs \<longrightarrow>
            routeLayer s' = None \<and> routeSource s' = None \<and>
            animating s' \<and> animationRequested s' \<and>
            effectCleanup s' = Some (length (sessions s)) \<and>
            length (sessions s') = Suc (length (sessions s)) \<and>
            length (sessions s) \<in> set (moveend s') \<and>
            s_coords (sessions s' ! length (sessions s)) = cs \<and>
            progressCoords (sessions s' ! length (sessions s)) = [cs ! 0] \<and>
            segIndex (sessions s' ! length (sessions s)) = 0 \<and>
            animationFrame (sessions s' ! length (sessions s)) = None \<and>
            \<not> animationPaused s' \<and> \<not> isPaused s' \<and> currentSegment s' = 0) \<and>
         (length cs < 2 \<longrightarrow>
            effectCleanup s' = None \<and> length (sessions s') = length (sessions s))"
proof -
  let ?ss = "sessions s ! sid"
  have st: "settled s" unfolding r by (rule settled_run)
  have "current_ok s" unfolding r by (rule current_ok_run)
  with cur have c: "sid < length (sessions s)" "\<not> cleanupDone ?ss"
    "s_marker ?ss < length (markerObjs s)" "animationRequested s" "mapRef s"
    by (simp_all add: current_ok_def)
  define S0 where "S0 = (storeResults cs s)\<lparr>coordsId := coordsId s + 1\<rparr>"
  define s1 where "s1 = cleanup sid S0"
  define s2 where "s2 = placeMarkersEffect (markers s) s1"
  define s3 where "s3 = animationEffect (markers s) s2"
  have S0: "sessions S0 = sessions s" "frames S0 = frames s" "coords S0 = cs"
    "markerObjs S0 = markerObjs s" "moveend S0 = moveend s" "effectCleanup S0 = Some sid"
    "animationRequested S0" "mapRef S0" "markers S0 = markers s"
    "coordsId S0 \<noteq> fst (effectDeps S0)"
    using st cur c by (simp_all add: S0_def storeResults_def settled_def)
  have nd: "\<not> cleanupDone (sessions S0 ! sid)" using c(2) by (simp add: S0)
  have k1: "sessions s1 = (sessions s)[sid := ?ss\<lparr>cleanupDone := True\<rparr>]"
    "markerObjs s1 = detach [s_marker ?ss] (markerObjs s)"
    "moveend s1 = moveend s" "animationRequested s1" "mapRef s1" "coords s1 = cs"
    unfolding s1_def by (simp_all add: cleanup_fields [OF nd] S0)
  have f1: "\<forall>e \<in> set (frames s1). animationFrame ?ss \<noteq> Some (fst e)"
    "set (frames s1) \<subseteq> set (frames s)"
    unfolding s1_def by (auto simp: cleanup_frames [OF nd] S0 split: option.splits)
  have r1: "routeLayerAdded ?ss \<longrightarrow> routeLayer s1 = None"
    "routeSourceAdded ?ss \<longrightarrow> routeSource s1 = None"
    unfolding s1_def using cleanup_routeLayer [OF nd] cleanup_routeSource [OF nd]
    by (simp_all add: S0)
  have g1: "gone (s_marker ?ss) s1"
    using c(3) by (simp add: k1 gone_def detach_def)
  have g3: "gone (s_marker ?ss) s3"
    unfolding s3_def s2_def by (intro gone_animationEffect gone_placeMarkers g1)
  have d1: "cleanupDone (sessions s1 ! sid)" "length (sessions s1) = length (sessions s)"
    using c(1) by (simp_all add: k1)
  have s2: "frames s2 = frames s1" "routeLayer s2 = routeLayer s1" "routeSource s2 = routeSource s1"
    "moveend s2 = moveend s" "animationRequested s2" "mapRef s2" "coords s2 = cs"
    "sessions s2 = sessions s1"
    by (simp_all add: s2_def placeMarkersEffect_eq k1)
  have s3a: "frames s3 = frames s1" "cleanupDone (sessions s3 ! sid)"
    "routeLayerAdded ?ss \<longrightarrow> routeLayer s3 = None"
    "routeSourceAdded ?ss \<longrightarrow> routeSource s3 = None"
    using d1 c(1) r1 by (simp_all add: s3_def animationEffect_eq s2 nth_append)
  have s3b: "routeLayer s3 = None" "routeSource s3 = None"
    "animating s3" "animationRequested s3" "effectCleanup s3 = Some (length (sessions s))"
    "length (sessions s3) = Suc (length (sessions s))"
    "length (sessions s) \<in> set (moveend s3)"
    "s_coords (sessions s3 ! length (sessions s)) = cs"
    "progressCoords (sessions s3 ! length (sessions s)) = [cs ! 0]"
    "segIndex (sessions s3 ! length (sessions s)) = 0"
    "animationFrame (sessions s3 ! length (sessions s)) = None"
    "\<not> animationPaused s3" "currentSegment s3 = 0"
    if "2 \<le> length cs"
    using that by (simp_all add: s3_def animationEffect_eq s2 d1 nth_append)
  have s3c: "effectCleanup s3 = None" "length (sessions s3) = length (sessions s)"
    if "length cs < 2"
    using that by (simp_all add: s3_def animationEffect_eq s2 d1)
  have e: "s' = commit S0" by (simp add: n S0_def)
  have fin: "s' = (let s3' = s3\<lparr>effectDeps := (coordsId S0, animationRequested S0, animationSpeed S0)\<rparr>
      in if animationPaused s3' \<noteq> pausedDep s3'
         then s3'\<lparr>isPaused := animationPaused s3', pausedDep := animationPaused s3'\<rparr>
         else s3')"
    unfolding e s3_def s2_def s1_def
    using commit_changed [OF S0(10) S0(6)] by (simp add: S0(9))
  have same: "frames s' = frames s3" "markerObjs s' = markerObjs s3" "routeLayer s' = routeLayer s3"
    "routeSource s' = routeSource s3" "moveend s' = moveend s3"
    "animationRequested s' = animationRequested s3" "animating s' = animating s3"
    "effectCleanup s' = effectCleanup s3" "sessions s' = sessions s3"
    "animationPaused s' = animationPaused s3" "currentSegment s' = currentSegment s3"
    by (simp_all add: fin Let_def)
  have ip: "\<not> isPaused s'" if "2 \<le> length cs"
    using that by (simp add: fin Let_def s3_def animationEffect_eq s2)
  show ?thesis
    unfolding same
    using f1 g3 s3a s3b s3c ip
    by (simp add: gone_def)
qed

lemma requested_state:
  "effectCleanup (run [MapCreated, Resolved [(0, 0), (10, 0)], StartClick]) = Some 0"
  "s_marker (sessions (run [MapCreated, Resolved [(0, 0), (10, 0)], StartClick]) ! 0) = 2"
  "length (sessions (run [MapCreated, Resolved [(0, 0), (10, 0)], StartClick])) = 1"
  "moveend (run [MapCreated, Resolved [(0, 0), (10, 0)], StartClick]) = [0]"
  "frames (run [MapCreated, Resolved [(0, 0), (10, 0)], StartClick]) = []"
  by (simp_all add: anim_defs Let_def)

lemma paused_state:
  "effectCleanup (run [MapCreated, Resolved [(0, 0), (10, 0)], StartClick, MoveEnd,
      Tick 1400, Frame 1, PauseClick, Frame 2]) = Some 0"
  "s_marker (sessions (run [MapCreated, Resolved [(0, 0), (10, 0)], StartClick, MoveEnd,
      Tick 1400, Frame 1, PauseClick, Frame 2]) ! 0) = 2"
  "length (sessions (run [MapCreated, Resolved [(0, 0), (10, 0)], StartClick, MoveEnd,
      Tick 1400, Frame 1, PauseClick, Frame 2])) = 1"
  "animationFrame (sessions (run [MapCreated, Resolved [(0, 0), (10, 0)], StartClick, MoveEnd,
      Tick 1400, Frame 1, PauseClick, Frame 2]) ! 0) = Some 2"
  "routeLayerAdded (sessions (run [MapCreated, Resolved [(0, 0), (10, 0)], StartClick, MoveEnd,
      Tick 1400, Frame 1, PauseClick, Frame 2]) ! 0)"
  "isPaused (run [MapCreated, Resolved [(0, 0), (10, 0)], StartClick, MoveEnd,
      Tick 1400, Frame 1, PauseClick, Frame 2])"
  "map fst (frames (run [MapCreated, Resolved [(0, 0), (10, 0)], StartClick, MoveEnd,
      Tick 1400, Frame 1, PauseClick, Frame 2])) = [3]"
  by (simp_all add: anim_defs Let_def)

theorem invalidation_tears_down_and_restarts_witness:
  "effectCleanup (run [MapCreated, Resolved [(0, 0), (10, 0)], StartClick]) = Some 0 \<and>
   moveend (run [MapCreated, Resolved [(0, 0), (10, 0)], StartClick]) = [0] \<and>
   cleanupDone (sessions (step (Resolved [(0, 0), (10, 0), (20, 0)])
      (run [MapCreated, Resolved [(0, 0), (10, 0)], StartClick])) ! 0) \<and>
   \<not> mk_added (markerObjs (step (Resolved [(0, 0), (10, 0), (20, 0)])
      (run [MapCreated, Resolved [(0, 0), (10, 0)], StartClick])) ! 2) \<and>
   effectCleanup (step (Resolved [(0, 0), (10, 0), (20, 0)])
      (run [MapCreated, Resolved [(0, 0), (10, 0)], StartClick])) = Some 1 \<and>
   effectCleanup (run [MapCreated, Resolved [(0, 0), (10, 0)], StartClick, MoveEnd]) = Some 0 \<and>
   map fst (frames (run [MapCreated, Resolved [(0, 0), (10, 0)], StartClick, MoveEnd])) = [1] \<and>
   frames (step (Resolved [(0, 0), (10, 0), (20, 0)])
      (run [MapCreated, Resolved [(0, 0), (10, 0)], StartClick, MoveEnd])) = [] \<and>
   \<not> mk_added (markerObjs (step (Resolved [(0, 0), (10, 0), (20, 0)])
      (run [MapCreated, Resolved [(0, 0), (10, 0)], StartClick, MoveEnd])) ! 2) \<and>
   routeLayer (step (Resolved [(0, 0), (10, 0), (20, 0)])
      (run [MapCreated, Resolved [(0, 0), (10, 0)], StartClick, MoveEnd])) = None \<and>
   routeSource (step (Resolved [(0, 0), (10, 0), (20, 0)])
      (run [MapCreated, Resolved [(0, 0), (10, 0)], StartClick, MoveEnd])) = None \<and>
   effectCleanup (step (Resolved [(0, 0), (10, 0), (20, 0)])
      (run [MapCreated, Resolved [(0, 0), (10, 0)], StartClick, MoveEnd])) = Some 1 \<and>
   \<not> mk_added (markerObjs (step (Resolved [(0, 0)])
      (run [MapCreated, Resolved [(0, 0), (10, 0)], StartClick, MoveEnd])) ! 2) \<and>
   routeLayer (step (Resolved [(0, 0)])
      (run [MapCreated, Resolved [(0, 0), (10, 0)], StartClick, MoveEnd])) = None \<and>
   effectCleanup (step (Resolved [(0, 0)])
      (run [MapCreated, Resolved [(0, 0), (10, 0)], StartClick, MoveEnd])) = None \<and>
   effectCleanup (run [MapCreated, Resolved [(0, 0), (10, 0)], StartClick, MoveEnd,
      Tick 1400, Frame 1, PauseClick, Frame 2]) = Some 0 \<and>
   isPaused (run [MapCreated, Resolved [(0, 0), (10, 0)], StartClick, MoveEnd,
      Tick 1400, Frame 1, PauseClick, Frame 2]) \<and>
   cleanupDone (sessions (step (Resolved [(0, 0), (10, 0), (20, 0)])
      (run [MapCreated, Resolved [(0, 0), (10, 0)], StartClick, MoveEnd,
            Tick 1400, Frame 1, PauseClick, Frame 2])) ! 0) \<and>
   \<not> mk_added (markerObjs (step (Resolved [(0, 0), (10, 0), (20, 0)])
      (run [MapCreated, Resolved [(0, 0), (10, 0)], StartClick, MoveEnd,
            Tick 1400, Frame 1, PauseClick, Frame 2])) ! 2) \<and>
   routeLayer (step (Resolved [(0, 0), (10, 0), (20, 0)])
      (run [MapCreated, Resolved [(0, 0), (10, 0)], StartClick, MoveEnd,
            Tick 1400, Frame 1, PauseClick, Frame 2])) = None \<and>
   effectCleanup (step (Resolved [(0, 0), (10, 0), (20, 0)])
      (run [MapCreated, Resolved [(0, 0), (10, 0)], StartClick, MoveEnd,
            Tick 1400, Frame 1, PauseClick, Frame 2])) = Some 1 \<and>
   \<not> isPaused (step (Resolved [(0, 0), (10, 0), (20, 0)])
      (run [MapCreated, Resolved [(0, 0), (10, 0)], StartClick, MoveEnd,
            Tick 1400, Frame 1, PauseClick, Frame 2]))"
proof -
  let ?cs = "[(0, 0), (10, 0), (20, 0)] :: coord list"
  let ?R = "run [MapCreated, Resolved [(0, 0), (10, 0)], StartClick]"
  let ?P = "run [MapCreated, Resolved [(0, 0), (10, 0)], StartClick, MoveEnd]"
  let ?Q = "run [MapCreated, Resolved [(0, 0), (10, 0)], StartClick, MoveEnd,
                 Tick 1400, Frame 1, PauseClick, Frame 2]"
  have hP: "effectCleanup ?P = Some 0" by (simp add: pre_state)
  have kP: "s_marker (sessions ?P ! 0) = 2" "length (sessions ?P) = 1"
    "routeLayerAdded (sessions ?P ! 0)" "routeSourceAdded (sessions ?P ! 0)"
    "map fst (frames ?P) = [1]"
    by (simp_all add: pre_state)
  note a = invalidation_tears_down_and_restarts [OF refl requested_state(1) refl, of ?cs]
  note b = invalidation_tears_down_and_restarts [OF refl hP refl, of ?cs]
  note c = invalidation_tears_down_and_restarts [OF refl hP refl, of "[(0, 0)]"]
  note d = invalidation_tears_down_and_restarts [OF refl paused_state(1) refl, of ?cs]
  have fr: "frames (step (Resolved ?cs) ?P) = []"
    unfolding pre_state by (simp add: anim_defs Let_def)
  have A: "cleanupDone (sessions (step (Resolved ?cs) ?R) ! 0)"
    "\<not> mk_added (markerObjs (step (Resolved ?cs) ?R) ! 2)"
    "effectCleanup (step (Resolved ?cs) ?R) = Some 1"
    using a unfolding requested_state by simp_all
  have B: "\<not> mk_added (markerObjs (step (Resolved ?cs) ?P) ! 2)"
    "routeLayer (step (Resolved ?cs) ?P) = None"
    "routeSource (step (Resolved ?cs) ?P) = None"
    "effectCleanup (step (Resolved ?cs) ?P) = Some 1"
    using b unfolding kP by simp_all
  have C: "\<not> mk_added (markerObjs (step (Resolved [(0, 0)]) ?P) ! 2)"
    "routeLayer (step (Resolved [(0, 0)]) ?P) = None"
    "effectCleanup (step (Resolved [(0, 0)]) ?P) = None"
    using c kP(3) unfolding kP(1) by simp_all
  have D: "cleanupDone (sessions (step (Resolved ?cs) ?Q) ! 0)"
    "\<not> mk_added (markerObjs (step (Resolved ?cs) ?Q) ! 2)"
    "routeLayer (step (Resolved ?cs) ?Q) = None"
    "effectCleanup (step (Resolved ?cs) ?Q) = Some 1"
    "\<not> isPaused (step (Resolved ?cs) ?Q)"
    using d unfolding paused_state by simp_all
  show ?thesis
    by (intro conjI requested_state hP kP fr A B C D paused_state)
qed

text \<open>
  What the theorem is silent about.  A frame polled while paused stores its id in
  \<^verbatim>\<open>animationStateRef.current.currentFrame\<close>, not in \<^verbatim>\<open>animationFrame\<close>, so the cleanup of a
  paused session cancels nothing and the old callback stays pending beside the new
  session.  The cleanup of a session that still waits for \<^verbatim>\<open>moveend\<close> leaves its listener
  registered.  With a new list of fewer than two coordinates no session is left, yet
  \<^verbatim>\<open>animating\<close> stays set, and the controls that could clear it are disabled or hidden.
\<close>

lemma paused_invalidation_keeps_callback:
  "frames (step (Resolved [(0, 0), (10, 0), (20, 0)])
      (run [MapCreated, Resolved [(0, 0), (10, 0)], StartClick, MoveEnd,
            Tick 1400, Frame 1, PauseClick, Frame 2])) =
     [(3, \<lparr>f_session = 0, f_start = (0, 0), f_end = (10, 0), f_t = 2 / 5,
           f_duration = 3500, f_startTime = 0\<rparr>)] \<and>
   effectCleanup (step (Resolved [(0, 0), (10, 0), (20, 0)])
      (run [MapCreated, Resolved [(0, 0), (10, 0)], StartClick, MoveEnd,
            Tick 1400, Frame 1, PauseClick, Frame 2])) = Some 1"
  by (simp add: anim_defs Let_def)

lemma requested_invalidation_keeps_listener:
  "moveend (step (Resolved [(0, 0), (10, 0), (20, 0)])
      (run [MapCreated, Resolved [(0, 0), (10, 0)], StartClick])) = [0, 1]"
  by (simp add: anim_defs Let_def)

lemma short_list_leaves_animating_set:
  "animating (step (Resolved [(0, 0)])
      (run [MapCreated, Resolved [(0, 0), (10, 0)], StartClick, MoveEnd])) \<and>
   effectCleanup (step (Resolved [(0, 0)])
      (run [MapCreated, Resolved [(0, 0), (10, 0)], StartClick, MoveEnd])) = None \<and>
   frames (step (Resolved [(0, 0)])
      (run [MapCreated, Resolved [(0, 0), (10, 0)], StartClick, MoveEnd])) = [] \<and>
   moveend (step (Resolved [(0, 0)])
      (run [MapCreated, Resolved [(0, 0), (10, 0)], StartClick, MoveEnd])) = []"
  unfolding pre_state by (simp add: anim_defs Let_def)

end
